theory Spec2Isabelle
  imports Complex_Main
begin

unbundle bit_operations_syntax

section \<open>Python values, errors and containers\<close>

text \<open>
  The development embeds the class \<^verbatim>\<open>AnalysisPoint\<close> of
  \<^verbatim>\<open>honeybee/radiance/analysispoint.py\<close> (Python 2).

  Identifiers handed to the class (source names, state names, state ids) are Python
  objects; the three shapes the code distinguishes are \<^verbatim>\<open>None\<close>, a byte string
  and an integer. Illuminance values are numbers or \<^verbatim>\<open>None\<close>; numbers are
  modelled as exact reals. Hours of the year are integers: the code uses them both as
  dictionary keys and as list indices.
\<close>

datatype pyobj = PNone | PStr string | PInt int

datatype error =
    ValueError string
  | IndexError
  | TypeError
  | KeyError
  | AssertionError
  | ZeroDivisionError
  | UnboundLocalError

text \<open>
  A stored sample is what the dictionary of a source/state series holds for an hour:
  the mutable two-element list \<^verbatim>\<open>[total, direct]\<close> made by the default factory
  \<^verbatim>\<open>double\<close> and filled by \<^verbatim>\<open>setValue\<close>, or the tuple
  \<^verbatim>\<open>(total, direct)\<close> stored by \<^verbatim>\<open>setCoupledValue\<close>.
\<close>

datatype sample = SList "real option" "real option" | STuple "real option" "real option"

fun sample_total :: "sample \<Rightarrow> real option" where
  "sample_total (SList t d) = t"
| "sample_total (STuple t d) = t"

fun sample_direct :: "sample \<Rightarrow> real option" where
  "sample_direct (SList t d) = d"
| "sample_direct (STuple t d) = d"

text \<open>\<^verbatim>\<open>sample[ind] = value\<close>: a list is updated in place, a tuple raises TypeError.\<close>

fun sample_setitem :: "sample \<Rightarrow> bool \<Rightarrow> real option \<Rightarrow> error + sample" where
  "sample_setitem (SList t d) isDirect v = Inr (if isDirect then SList t v else SList v d)"
| "sample_setitem (STuple t d) isDirect v = Inl TypeError"

text \<open>Python list indexing: a negative index counts from the end.\<close>

definition py_pos :: "'a list \<Rightarrow> int \<Rightarrow> nat option" where
  "py_pos xs i =
     (let n = int (length xs); j = (if i < 0 then n + i else i)
      in if 0 \<le> j \<and> j < n then Some (nat j) else None)"

definition py_index :: "'a list \<Rightarrow> int \<Rightarrow> error + 'a" where
  "py_index xs i = (case py_pos xs i of None \<Rightarrow> Inl IndexError | Some j \<Rightarrow> Inr (xs ! j))"

definition py_setitem :: "'a list \<Rightarrow> int \<Rightarrow> 'a \<Rightarrow> error + 'a list" where
  "py_setitem xs i v =
     (case py_pos xs i of None \<Rightarrow> Inl IndexError | Some j \<Rightarrow> Inr (xs[j := v]))"

text \<open>\<^verbatim>\<open>list.index(x)\<close>: the first position of \<open>x\<close>, if any.\<close>

fun list_index :: "'a list \<Rightarrow> 'a \<Rightarrow> nat option" where
  "list_index [] x = None"
| "list_index (y # ys) x = (if y = x then Some 0 else map_option Suc (list_index ys x))"

text \<open>
  The contents of a dictionary are an association list with distinct keys, kept in
  the order in which the keys were first assigned. Assigning to a present key replaces
  its value, assigning to a new key adds an entry. Lookup, membership and \<^verbatim>\<open>len\<close>
  do not depend on the order of the list. The order in which the dictionary is
  iterated is not the order of this list: see \<open>iteritems\<close> below.
\<close>

fun dict_set :: "('k \<times> 'v) list \<Rightarrow> 'k \<Rightarrow> 'v \<Rightarrow> ('k \<times> 'v) list" where
  "dict_set [] k v = [(k, v)]"
| "dict_set ((k', v') # d) k v = (if k' = k then (k, v) # d else (k', v') # dict_set d k v)"

text \<open>
  A Python 2 dictionary is a hash table, and \<^verbatim>\<open>iteritems\<close> walks its slots: the
  keys come in the order of their slots, not in the order of insertion. The slot of a
  key is a parameter \<open>slot\<close> of every function that iterates over a dictionary; the
  entries are listed by increasing slot (entries of one slot in insertion order).
  Every order of the keys is the order of some \<open>slot\<close>.
\<close>

definition iteritems :: "('k \<Rightarrow> nat) \<Rightarrow> ('k \<times> 'v) list \<Rightarrow> ('k \<times> 'v) list" where
  "iteritems slot d = sort_key (\<lambda>e. slot (fst e)) d"

text \<open>
  The slots of CPython 2.7 for a dictionary of at most five keys (a table of eight
  slots, the slot being the three low bits of the hash) whose keys fall into different
  slots. The hash of a byte string is \<^verbatim>\<open>string_hash\<close> of \<^verbatim>\<open>stringobject.c\<close> on
  64-bit words, without hash randomisation:
  \<^verbatim>\<open>x = *p << 7; while (--len >= 0) x = (1000003*x) ^ *p++; x ^= Py_SIZE(a);
  if (x == -1) x = -2;\<close>
  and 0 for the empty string. The hash of an integer is the integer, -2 for -1. The
  hash of \<^verbatim>\<open>None\<close> comes from the address of the object and is not determined by the
  language; its slot is taken to be 0 here and is used for no result below.
\<close>

definition string_hash :: "string \<Rightarrow> int" where
  "string_hash s =
     (case s of
        [] \<Rightarrow> 0
      | c # cs \<Rightarrow>
          (let x = foldl (\<lambda>x ch. ((1000003 * x) XOR int (of_char ch)) mod 2 ^ 64)
                     (int (of_char c) * 128) s;
               y = x XOR int (length s)
           in if y = 2 ^ 64 - 1 then - 2 else if y \<ge> 2 ^ 63 then y - 2 ^ 64 else y))"

fun cpython27_slot :: "pyobj \<Rightarrow> nat" where
  "cpython27_slot (PStr s) = nat (string_hash s mod 8)"
| "cpython27_slot (PInt i) = nat ((if i = - 1 then - 2 else i) mod 8)"
| "cpython27_slot PNone = 0"

text \<open>
  \<^verbatim>\<open>defaultdict(double).__getitem__\<close>: a missing key never raises KeyError; the
  default \<^verbatim>\<open>[None, None]\<close> is created, stored under the key and returned.
\<close>

definition defaultdict_getitem ::
  "(int \<times> sample) list \<Rightarrow> int \<Rightarrow> sample \<times> (int \<times> sample) list" where
  "defaultdict_getitem d hoy =
     (case map_of d hoy of
        Some v \<Rightarrow> (v, d)
      | None \<Rightarrow> (SList None None, dict_set d hoy (SList None None)))"

text \<open>
  \<^verbatim>\<open>str(state).isdigit()\<close> and \<^verbatim>\<open>int(state)\<close>, by the shape of the object:
  \<^verbatim>\<open>str(None)\<close> is \<^verbatim>\<open>'None'\<close>, the decimal form of an integer is all digits
  exactly when the integer is not negative, and a byte string is all digits when it
  is not empty and every character is one of 0..9.
\<close>

definition is_digit_char :: "char \<Rightarrow> bool" where
  "is_digit_char c = (c \<in> set ''0123456789'')"

definition digit_value :: "char \<Rightarrow> int" where
  "digit_value c = int (of_char c) - 48"

fun str_isdigit :: "pyobj \<Rightarrow> bool" where
  "str_isdigit PNone = False"
| "str_isdigit (PInt i) = (0 \<le> i)"
| "str_isdigit (PStr s) = (s \<noteq> [] \<and> list_all is_digit_char s)"

fun py_int :: "pyobj \<Rightarrow> int" where
  "py_int (PInt i) = i"
| "py_int (PStr s) = foldl (\<lambda>a c. 10 * a + digit_value c) 0 s"
| "py_int PNone = 0"

section \<open>The analysis point\<close>

text \<open>
  \<^verbatim>\<open>_sources\<close> maps a source name to \<^verbatim>\<open>{'id': ..., 'state': [...]}\<close>;
  \<^verbatim>\<open>_values[sid][stateid]\<close> is the dictionary from hour to sample of one
  source/state series. Location and direction play no part in the result store
  and are left out.
\<close>

record source_entry =
  src_id :: nat
  src_state :: "pyobj list"

record analysis_point =
  p_sources :: "(pyobj \<times> source_entry) list"
  p_values :: "(int \<times> sample) list list list"
  p_isDirectLoaded :: bool

text \<open>
  The attribute \<^verbatim>\<open>logic\<close> holds the control predicate; only \<^verbatim>\<open>blindsState\<close>
  reads it, and it is passed to that function as an argument. Its extra arguments
  \<^verbatim>\<open>args, kwargs\<close> are part of the predicate given. The default is
  \<^verbatim>\<open>args[0] > 2000\<close>.
\<close>

definition default_logic :: "real \<Rightarrow> real option \<Rightarrow> int \<Rightarrow> bool" where
  "default_logic ill ill_dir h = (ill > 2000)"

definition init :: analysis_point where
  "init = \<lparr>p_sources = [], p_values = [], p_isDirectLoaded = False\<rparr>"

definition hasValues :: "analysis_point \<Rightarrow> bool" where
  "hasValues s = (length (p_values s) \<noteq> 0)"

definition hasDirectValues :: "analysis_point \<Rightarrow> bool" where
  "hasDirectValues s = p_isDirectLoaded s"

definition hoys :: "analysis_point \<Rightarrow> error + int list" where
  "hoys s =
     (if \<not> hasValues s then Inr []
      else case py_index (p_values s) 0 of
             Inl e \<Rightarrow> Inl e
           | Inr v0 \<Rightarrow> (case py_index v0 0 of
                          Inl e \<Rightarrow> Inl e
                        | Inr d \<Rightarrow> Inr (sort (map fst d))))"

definition sourceId :: "analysis_point \<Rightarrow> pyobj \<Rightarrow> error + nat" where
  "sourceId s source =
     (case map_of (p_sources s) source of
        None \<Rightarrow> Inl (ValueError ''Invalid source input'')
      | Some d \<Rightarrow> Inr (src_id d))"

definition blindStateId :: "analysis_point \<Rightarrow> pyobj \<Rightarrow> pyobj \<Rightarrow> error + int" where
  "blindStateId s source state =
     (if str_isdigit state then Inr (py_int state)
      else case map_of (p_sources s) source of
             None \<Rightarrow> Inl KeyError
           | Some d \<Rightarrow> (case list_index (src_state d) state of
                          None \<Rightarrow> Inl (ValueError ''Invalid state input'')
                        | Some i \<Rightarrow> Inr (int i)))"

text \<open>
  \<^verbatim>\<open>sources\<close>: the names ordered by id, starting from \<^verbatim>\<open>range(len(_sources))\<close>
  and overwriting position \<^verbatim>\<open>d['id']\<close> for each entry of
  \<^verbatim>\<open>self._sources.iteritems()\<close>.
\<close>

fun sources_fill :: "pyobj list \<Rightarrow> (pyobj \<times> source_entry) list \<Rightarrow> error + pyobj list" where
  "sources_fill srcs [] = Inr srcs"
| "sources_fill srcs ((name, d) # rest) =
     (case py_setitem srcs (int (src_id d)) name of
        Inl e \<Rightarrow> Inl e
      | Inr srcs' \<Rightarrow> sources_fill srcs' rest)"

definition sources :: "(pyobj \<Rightarrow> nat) \<Rightarrow> analysis_point \<Rightarrow> error + pyobj list" where
  "sources slot s =
     sources_fill (map (\<lambda>i. PInt (int i)) [0..<length (p_sources s)])
       (iteritems slot (p_sources s))"

definition states :: "(pyobj \<Rightarrow> nat) \<Rightarrow> analysis_point \<Rightarrow> pyobj list list" where
  "states slot s = map (\<lambda>e. src_state (snd e)) (iteritems slot (p_sources s))"

text \<open>
  \<^verbatim>\<open>longestStateIds\<close>: the state counts are collected from
  \<^verbatim>\<open>self._sources.iteritems()\<close>, so the positions of a vector follow the order of
  iteration of the dictionary; \<^verbatim>\<open>max\<close> of an empty sequence raises ValueError.
\<close>

definition longestStateIds :: "(pyobj \<Rightarrow> nat) \<Rightarrow> analysis_point \<Rightarrow> error + int list list" where
  "longestStateIds slot s =
     (let states = map (\<lambda>e. int (length (src_state (snd e))) - 1)
                       (iteritems slot (p_sources s))
      in if states = [] then Inl (ValueError ''max() arg is an empty sequence'')
         else Inr (map (\<lambda>i. map (\<lambda>st. min st i) states)
                       [0..<nat (Max (set states) + 1)]))"

section \<open>Writing samples\<close>

text \<open>
  \<^verbatim>\<open>_createDataStructure\<close>, in the order of the source: register the source if its
  name is new (its id is the number of sources so far, and an empty list is appended
  to \<^verbatim>\<open>_values\<close>); register the state if it is new for that source (the name is
  appended first, then a fresh dictionary is appended to \<^verbatim>\<open>_values[sid]\<close>, which
  raises IndexError when \<open>sid\<close> is out of range); return the id of the source and
  the index of the state.
\<close>

definition add_source :: "analysis_point \<Rightarrow> pyobj \<Rightarrow> analysis_point" where
  "add_source s source =
     (let currentSources = map fst (p_sources s)
      in if source \<notin> set currentSources
         then s\<lparr>p_sources := dict_set (p_sources s) source
                                \<lparr>src_id = length currentSources, src_state = []\<rparr>,
                p_values := p_values s @ [[]]\<rparr>
         else s)"

definition add_state ::
  "analysis_point \<Rightarrow> pyobj \<Rightarrow> source_entry \<Rightarrow> pyobj \<Rightarrow> (error + unit) \<times> analysis_point" where
  "add_state s source d state =
     (if state \<notin> set (src_state d)
      then (let s2 = s\<lparr>p_sources := dict_set (p_sources s) source
                                        (d\<lparr>src_state := src_state d @ [state]\<rparr>)\<rparr>
            in case py_pos (p_values s2) (int (src_id d)) of
                 None \<Rightarrow> (Inl IndexError, s2)
               | Some i \<Rightarrow> (Inr (), s2\<lparr>p_values := (p_values s2)[i := p_values s2 ! i @ [[]]]\<rparr>))
      else (Inr (), s))"

definition createDataStructure ::
  "analysis_point \<Rightarrow> pyobj \<Rightarrow> pyobj \<Rightarrow> (error + nat \<times> nat) \<times> analysis_point" where
  "createDataStructure s source state =
     (let s1 = add_source s source
      in case map_of (p_sources s1) source of
           None \<Rightarrow> (Inl KeyError, s1)
         | Some d \<Rightarrow>
             (case add_state s1 source d state of
                (Inl e, s2) \<Rightarrow> (Inl e, s2)
              | (Inr u, s2) \<Rightarrow>
                  (case map_of (p_sources s2) source of
                     None \<Rightarrow> (Inl KeyError, s2)
                   | Some d2 \<Rightarrow>
                       (case list_index (src_state d2) state of
                          None \<Rightarrow> (Inl (ValueError ''not in list''), s2)
                        | Some stateid \<Rightarrow> (Inr (src_id d, stateid), s2)))))"

text \<open>
  The expression \<^verbatim>\<open>self._values[sid][stateid][hoy]\<close>: two list lookups, then the
  lookup in the default dictionary, which stores the default sample under a missing hour.
\<close>

definition values_getitem ::
  "analysis_point \<Rightarrow> int \<Rightarrow> int \<Rightarrow> int \<Rightarrow> (error + sample) \<times> analysis_point" where
  "values_getitem s sid stateid hoy =
     (case py_pos (p_values s) sid of
        None \<Rightarrow> (Inl IndexError, s)
      | Some i \<Rightarrow>
          (case py_pos (p_values s ! i) stateid of
             None \<Rightarrow> (Inl IndexError, s)
           | Some j \<Rightarrow>
               (case defaultdict_getitem (p_values s ! i ! j) hoy of
                  (smp, d') \<Rightarrow>
                    (Inr smp, s\<lparr>p_values := (p_values s)[i := (p_values s ! i)[j := d']]\<rparr>))))"

text \<open>The assignment \<^verbatim>\<open>self._values[sid][stateid][hoy] = smp\<close>.\<close>

definition values_setitem ::
  "analysis_point \<Rightarrow> int \<Rightarrow> int \<Rightarrow> int \<Rightarrow> sample \<Rightarrow> (error + unit) \<times> analysis_point" where
  "values_setitem s sid stateid hoy smp =
     (case py_pos (p_values s) sid of
        None \<Rightarrow> (Inl IndexError, s)
      | Some i \<Rightarrow>
          (case py_pos (p_values s ! i) stateid of
             None \<Rightarrow> (Inl IndexError, s)
           | Some j \<Rightarrow>
               (Inr (), s\<lparr>p_values := (p_values s)
                           [i := (p_values s ! i)[j := dict_set (p_values s ! i ! j) hoy smp]]\<rparr>)))"

text \<open>
  \<^verbatim>\<open>self._values[sid][stateid][hoy][ind] = value\<close>: the sample is fetched (and
  created when the hour is new), then its slot is assigned; the sample fetched is the
  object the dictionary holds, so the dictionary sees the assignment.
\<close>

definition values_set_slot ::
  "analysis_point \<Rightarrow> int \<Rightarrow> int \<Rightarrow> int \<Rightarrow> bool \<Rightarrow> real option \<Rightarrow> (error + unit) \<times> analysis_point" where
  "values_set_slot s sid stateid hoy isDirect v =
     (case values_getitem s sid stateid hoy of
        (Inl e, s1) \<Rightarrow> (Inl e, s1)
      | (Inr smp, s1) \<Rightarrow>
          (case sample_setitem smp isDirect v of
             Inl e \<Rightarrow> (Inl e, s1)
           | Inr smp' \<Rightarrow> values_setitem s1 sid stateid hoy smp'))"

definition setValue ::
  "analysis_point \<Rightarrow> real option \<Rightarrow> int \<Rightarrow> pyobj \<Rightarrow> pyobj \<Rightarrow> bool \<Rightarrow> (error + unit) \<times> analysis_point" where
  "setValue s v hoy source state isDirect =
     (case createDataStructure s source state of
        (Inl e, s1) \<Rightarrow> (Inl e, s1)
      | (Inr (sid, stateid), s1) \<Rightarrow>
          (let s2 = (if isDirect then s1\<lparr>p_isDirectLoaded := True\<rparr> else s1)
           in values_set_slot s2 (int sid) (int stateid) hoy isDirect v))"

text \<open>The loop \<^verbatim>\<open>for hoy, value in izip(hoys, values)\<close> of \<^verbatim>\<open>setValues\<close>.\<close>

fun setValues_loop ::
  "analysis_point \<Rightarrow> int \<Rightarrow> int \<Rightarrow> bool \<Rightarrow> (int \<times> real option) list \<Rightarrow> (error + unit) \<times> analysis_point" where
  "setValues_loop s sid stateid isDirect [] = (Inr (), s)"
| "setValues_loop s sid stateid isDirect ((hoy, v) # rest) =
     (case values_set_slot s sid stateid hoy isDirect v of
        (Inl e, s1) \<Rightarrow> (Inl e, s1)
      | (Inr u, s1) \<Rightarrow> setValues_loop s1 sid stateid isDirect rest)"

text \<open>
  \<^verbatim>\<open>values\<close> and \<^verbatim>\<open>hoys\<close> are given as lists here (for a generator the
  source skips the length assertion).
\<close>

definition setValues ::
  "analysis_point \<Rightarrow> real option list \<Rightarrow> int list \<Rightarrow> pyobj \<Rightarrow> pyobj \<Rightarrow> bool \<Rightarrow> (error + unit) \<times> analysis_point" where
  "setValues s vs hs source state isDirect =
     (if length vs \<noteq> length hs then (Inl AssertionError, s)
      else case createDataStructure s source state of
             (Inl e, s1) \<Rightarrow> (Inl e, s1)
           | (Inr (sid, stateid), s1) \<Rightarrow>
               (let s2 = (if isDirect then s1\<lparr>p_isDirectLoaded := True\<rparr> else s1)
                in setValues_loop s2 (int sid) (int stateid) isDirect (zip hs vs)))"

text \<open>
  The body of the \<^verbatim>\<open>try\<close> of the coupled setters:
  \<^verbatim>\<open>self._values[sid][stateid][hoy] = value[0], value[1]\<close>. The right-hand side is
  evaluated first; a value with fewer than two elements raises IndexError. Every
  IndexError and TypeError of the statement is re-raised as ValueError.
\<close>

definition wrong_input :: "error \<Rightarrow> error" where
  "wrong_input e =
     (case e of
        TypeError \<Rightarrow> ValueError ''Wrong input''
      | IndexError \<Rightarrow> ValueError ''Wrong input''
      | _ \<Rightarrow> e)"

definition coupled_assign ::
  "analysis_point \<Rightarrow> int \<Rightarrow> int \<Rightarrow> int \<Rightarrow> real option list \<Rightarrow> (error + unit) \<times> analysis_point" where
  "coupled_assign s sid stateid hoy v =
     (case py_index v 0 of
        Inl e \<Rightarrow> (Inl (wrong_input e), s)
      | Inr t \<Rightarrow>
          (case py_index v 1 of
             Inl e \<Rightarrow> (Inl (wrong_input e), s)
           | Inr d \<Rightarrow>
               (case values_setitem s sid stateid hoy (STuple t d) of
                  (Inl e, s1) \<Rightarrow> (Inl (wrong_input e), s1)
                | (Inr u, s1) \<Rightarrow> (Inr (), s1))))"

definition setCoupledValue ::
  "analysis_point \<Rightarrow> real option list \<Rightarrow> int \<Rightarrow> pyobj \<Rightarrow> pyobj \<Rightarrow> (error + unit) \<times> analysis_point" where
  "setCoupledValue s v hoy source state =
     (case createDataStructure s source state of
        (Inl e, s1) \<Rightarrow> (Inl e, s1)
      | (Inr (sid, stateid), s1) \<Rightarrow>
          (case coupled_assign s1 (int sid) (int stateid) hoy v of
             (Inl e, s2) \<Rightarrow> (Inl e, s2)
           | (Inr u, s2) \<Rightarrow> (Inr (), s2\<lparr>p_isDirectLoaded := True\<rparr>)))"

fun setCoupledValues_loop ::
  "analysis_point \<Rightarrow> int \<Rightarrow> int \<Rightarrow> (int \<times> real option list) list \<Rightarrow> (error + unit) \<times> analysis_point" where
  "setCoupledValues_loop s sid stateid [] = (Inr (), s)"
| "setCoupledValues_loop s sid stateid ((hoy, v) # rest) =
     (case coupled_assign s sid stateid hoy v of
        (Inl e, s1) \<Rightarrow> (Inl e, s1)
      | (Inr u, s1) \<Rightarrow> setCoupledValues_loop s1 sid stateid rest)"

definition setCoupledValues ::
  "analysis_point \<Rightarrow> real option list list \<Rightarrow> int list \<Rightarrow> pyobj \<Rightarrow> pyobj \<Rightarrow> (error + unit) \<times> analysis_point" where
  "setCoupledValues s vs hs source state =
     (if length vs \<noteq> length hs then (Inl AssertionError, s)
      else case createDataStructure s source state of
             (Inl e, s1) \<Rightarrow> (Inl e, s1)
           | (Inr (sid, stateid), s1) \<Rightarrow>
               (case setCoupledValues_loop s1 (int sid) (int stateid) (zip hs vs) of
                  (Inl e, s2) \<Rightarrow> (Inl e, s2)
                | (Inr u, s2) \<Rightarrow> (Inr (), s2\<lparr>p_isDirectLoaded := True\<rparr>)))"

section \<open>Reading samples\<close>

text \<open>
  The readers resolve the source and the state, then evaluate
  \<^verbatim>\<open>self._values[sid][stateid][hoy]\<close> inside \<^verbatim>\<open>try ... except KeyError\<close>.
  The handler turns a KeyError into \<^verbatim>\<open>ValueError('Invalid hoy input')\<close>; any
  other error passes through. The \<^verbatim>\<open>else\<close> branch of \<^verbatim>\<open>directValue\<close> follows a
  \<^verbatim>\<open>try\<close> that always leaves by \<^verbatim>\<open>return\<close> or by an exception, so it is
  never run and the flag is not set by a read. The readers by raw id
  (\<^verbatim>\<open>coupledValueById\<close>, \<^verbatim>\<open>coupledValuesById\<close>) and the string renderings of the
  point are not part of this development.
\<close>

definition invalid_hoy :: "error \<Rightarrow> error" where
  "invalid_hoy e = (case e of KeyError \<Rightarrow> ValueError ''Invalid hoy input'' | _ \<Rightarrow> e)"

definition read_sample ::
  "analysis_point \<Rightarrow> int \<Rightarrow> pyobj \<Rightarrow> pyobj \<Rightarrow> (error + sample) \<times> analysis_point" where
  "read_sample s hoy source state =
     (case sourceId s source of
        Inl e \<Rightarrow> (Inl e, s)
      | Inr sid \<Rightarrow>
          (case blindStateId s source state of
             Inl e \<Rightarrow> (Inl e, s)
           | Inr stateid \<Rightarrow>
               (case values_getitem s (int sid) stateid hoy of
                  (Inl e, s1) \<Rightarrow> (Inl (invalid_hoy e), s1)
                | (Inr smp, s1) \<Rightarrow> (Inr smp, s1))))"

definition value_of ::
  "analysis_point \<Rightarrow> int \<Rightarrow> pyobj \<Rightarrow> pyobj \<Rightarrow> (error + real option) \<times> analysis_point" where
  "value_of s hoy source state =
     (case read_sample s hoy source state of
        (Inl e, s1) \<Rightarrow> (Inl e, s1)
      | (Inr smp, s1) \<Rightarrow> (Inr (sample_total smp), s1))"

definition directValue ::
  "analysis_point \<Rightarrow> int \<Rightarrow> pyobj \<Rightarrow> pyobj \<Rightarrow> (error + real option) \<times> analysis_point" where
  "directValue s hoy source state =
     (case read_sample s hoy source state of
        (Inl e, s1) \<Rightarrow> (Inl e, s1)
      | (Inr smp, s1) \<Rightarrow> (Inr (sample_direct smp), s1))"

definition coupledValue ::
  "analysis_point \<Rightarrow> int \<Rightarrow> pyobj \<Rightarrow> pyobj \<Rightarrow> (error + sample) \<times> analysis_point" where
  "coupledValue s hoy source state = read_sample s hoy source state"

text \<open>
  The batch readers resolve the ids once and evaluate the lookup for each hour in
  turn: \<^verbatim>\<open>tuple(self._values[sid][stateid][hoy] for hoy in hoys)\<close>.
\<close>

fun read_samples_loop ::
  "analysis_point \<Rightarrow> int \<Rightarrow> int \<Rightarrow> int list \<Rightarrow> (error + sample list) \<times> analysis_point" where
  "read_samples_loop s sid stateid [] = (Inr [], s)"
| "read_samples_loop s sid stateid (hoy # rest) =
     (case values_getitem s sid stateid hoy of
        (Inl e, s1) \<Rightarrow> (Inl (invalid_hoy e), s1)
      | (Inr smp, s1) \<Rightarrow>
          (case read_samples_loop s1 sid stateid rest of
             (Inl e, s2) \<Rightarrow> (Inl e, s2)
           | (Inr smps, s2) \<Rightarrow> (Inr (smp # smps), s2)))"

definition read_samples ::
  "analysis_point \<Rightarrow> int list \<Rightarrow> pyobj \<Rightarrow> pyobj \<Rightarrow> (error + sample list) \<times> analysis_point" where
  "read_samples s hs source state =
     (case sourceId s source of
        Inl e \<Rightarrow> (Inl e, s)
      | Inr sid \<Rightarrow>
          (case blindStateId s source state of
             Inl e \<Rightarrow> (Inl e, s)
           | Inr stateid \<Rightarrow> read_samples_loop s (int sid) stateid hs))"

definition values_of ::
  "analysis_point \<Rightarrow> int list \<Rightarrow> pyobj \<Rightarrow> pyobj \<Rightarrow> (error + real option list) \<times> analysis_point" where
  "values_of s hs source state =
     (case read_samples s hs source state of
        (Inl e, s1) \<Rightarrow> (Inl e, s1)
      | (Inr smps, s1) \<Rightarrow> (Inr (map sample_total smps), s1))"

definition directValues ::
  "analysis_point \<Rightarrow> int list \<Rightarrow> pyobj \<Rightarrow> pyobj \<Rightarrow> (error + real option list) \<times> analysis_point" where
  "directValues s hs source state =
     (case read_samples s hs source state of
        (Inl e, s1) \<Rightarrow> (Inl e, s1)
      | (Inr smps, s1) \<Rightarrow> (Inr (map sample_direct smps), s1))"

definition coupledValues ::
  "analysis_point \<Rightarrow> int list \<Rightarrow> pyobj \<Rightarrow> pyobj \<Rightarrow> (error + sample list) \<times> analysis_point" where
  "coupledValues s hs source state = read_samples s hs source state"

section \<open>Combining the sources\<close>

text \<open>
  One round of the loop of \<^verbatim>\<open>combinedValueById\<close> first determines the pair
  \<^verbatim>\<open>t, d\<close> of the source: \<^verbatim>\<open>0, 0\<close> for the state id \<^verbatim>\<open>-1\<close>, else the
  stored sample, every exception of the lookup (an index out of range, an index that
  is not an integer) re-raised as ValueError.
\<close>

definition source_contribution ::
  "analysis_point \<Rightarrow> nat \<Rightarrow> pyobj \<Rightarrow> int \<Rightarrow> (error + real option \<times> real option) \<times> analysis_point" where
  "source_contribution s sid stateid hoy =
     (if stateid = PInt (- 1) then (Inr (Some 0, Some 0), s)
      else case stateid of
             PInt i \<Rightarrow>
               (case values_getitem s (int sid) i hoy of
                  (Inl e, s1) \<Rightarrow> (Inl (ValueError ''Invalid input''), s1)
                | (Inr smp, s1) \<Rightarrow> (Inr (sample_total smp, sample_direct smp), s1))
           | _ \<Rightarrow> (Inl (ValueError ''Invalid input''), s))"

text \<open>
  Then \<^verbatim>\<open>total += t; direct += d\<close> inside \<^verbatim>\<open>try ... except TypeError: pass\<close>:
  adding \<^verbatim>\<open>None\<close> raises TypeError, which ends the block and is dropped. A missing
  total skips both additions; a missing direct value, or a running direct value that is
  \<^verbatim>\<open>None\<close>, leaves the running direct value as it is.
\<close>

fun accumulate :: "real \<times> real option \<Rightarrow> real option \<times> real option \<Rightarrow> real \<times> real option" where
  "accumulate (tot, direct) (None, d) = (tot, direct)"
| "accumulate (tot, direct) (Some t, d) =
     (tot + t, (case direct of
                    None \<Rightarrow> None
                  | Some x \<Rightarrow> (case d of None \<Rightarrow> Some x | Some y \<Rightarrow> Some (x + y))))"

fun combine_loop ::
  "analysis_point \<Rightarrow> int \<Rightarrow> nat \<Rightarrow> pyobj list \<Rightarrow> real \<times> real option
     \<Rightarrow> (error + real \<times> real option) \<times> analysis_point" where
  "combine_loop s hoy sid [] acc = (Inr acc, s)"
| "combine_loop s hoy sid (stateid # rest) acc =
     (case source_contribution s sid stateid hoy of
        (Inl e, s1) \<Rightarrow> (Inl e, s1)
      | (Inr td, s1) \<Rightarrow> combine_loop s1 hoy (Suc sid) rest (accumulate acc td))"

text \<open>\<^verbatim>\<open>if not xs\<close> for an optional list: true for \<^verbatim>\<open>None\<close> and for the empty list.\<close>

fun or_else :: "'a list option \<Rightarrow> 'a list \<Rightarrow> 'a list" where
  "or_else None d = d"
| "or_else (Some []) d = d"
| "or_else (Some (x # xs)) d = x # xs"

definition combinedValueById ::
  "analysis_point \<Rightarrow> int \<Rightarrow> pyobj list option \<Rightarrow> (error + real \<times> real option) \<times> analysis_point" where
  "combinedValueById s hoy blindsStateIds =
     (let tot = 0;
          direct = (if p_isDirectLoaded s then Some 0 else None);
          ids = or_else blindsStateIds (replicate (length (p_sources s)) (PInt 0))
      in if length (p_sources s) \<noteq> length ids then (Inl AssertionError, s)
         else combine_loop s hoy 0 ids (tot, direct))"

text \<open>
  \<^verbatim>\<open>combinedValuesById\<close> is a generator; the model is the generator run to its end,
  as \<^verbatim>\<open>tuple(...)\<close> runs it at every call in the class: the list of the pairs
  yielded, or the first error. For each hour the row of state ids is
  \<^verbatim>\<open>blindsStateIds[hoy]\<close>.
\<close>

fun combinedValues_loop ::
  "analysis_point \<Rightarrow> pyobj list list \<Rightarrow> real option \<Rightarrow> int list
     \<Rightarrow> (error + (real \<times> real option) list) \<times> analysis_point" where
  "combinedValues_loop s blindsStateIds dirValue [] = (Inr [], s)"
| "combinedValues_loop s blindsStateIds dirValue (hoy # rest) =
     (case py_index blindsStateIds hoy of
        Inl e \<Rightarrow> (Inl e, s)
      | Inr row \<Rightarrow>
          (case combine_loop s hoy 0 row (0, dirValue) of
             (Inl e, s1) \<Rightarrow> (Inl e, s1)
           | (Inr td, s1) \<Rightarrow>
               (case combinedValues_loop s1 blindsStateIds dirValue rest of
                  (Inl e, s2) \<Rightarrow> (Inl e, s2)
                | (Inr tds, s2) \<Rightarrow> (Inr (td # tds), s2))))"

definition combinedValuesById ::
  "analysis_point \<Rightarrow> int list option \<Rightarrow> pyobj list list option
     \<Rightarrow> (error + (real \<times> real option) list) \<times> analysis_point" where
  "combinedValuesById s hoys_arg blindsStateIds_arg =
     (case (case hoys_arg of
              None \<Rightarrow> hoys s
            | Some [] \<Rightarrow> hoys s
            | Some (h # hs) \<Rightarrow> Inr (h # hs)) of
        Inl e \<Rightarrow> (Inl e, s)
      | Inr hs \<Rightarrow>
          (let blindsStateIds =
                 or_else blindsStateIds_arg
                   (replicate (length hs) (replicate (length (p_sources s)) (PInt 0)))
           in if length hs \<noteq> length blindsStateIds then (Inl AssertionError, s)
              else combinedValues_loop s blindsStateIds
                     (if p_isDirectLoaded s then Some 0 else None) hs))"

section \<open>Selecting the blinds state\<close>

text \<open>
  An explicit combination is a string of comma separated state names or ids, one per
  source: \<^verbatim>\<open>[c.strip() for c in str(cc).split(",")]\<close>.
\<close>

fun split_comma :: "string \<Rightarrow> string list" where
  "split_comma [] = [[]]"
| "split_comma (c # cs) =
     (if c = CHR '','' then [] # split_comma cs
      else (case split_comma cs of [] \<Rightarrow> [[c]] | w # ws \<Rightarrow> (c # w) # ws))"

definition is_space :: "char \<Rightarrow> bool" where
  "is_space c = ((of_char c :: nat) \<in> set [9, 10, 11, 12, 13, 32])"

definition strip :: "string \<Rightarrow> string" where
  "strip s = rev (dropWhile is_space (rev (dropWhile is_space s)))"

text \<open>
  The ids of one combination: position \<open>count\<close> becomes
  \<^verbatim>\<open>blindStateId(source, comb[count])\<close> for each source; a combination with fewer
  names than sources raises IndexError, re-raised as ValueError; names beyond the
  number of sources stay in the row as they are.
\<close>

fun resolve_comb :: "analysis_point \<Rightarrow> pyobj list \<Rightarrow> string list \<Rightarrow> error + pyobj list" where
  "resolve_comb s [] comb = Inr (map PStr comb)"
| "resolve_comb s (source # srcs) [] =
     Inl (ValueError ''Length of each state should be equal to number of sources'')"
| "resolve_comb s (source # srcs) (c # comb) =
     (case blindStateId s source (PStr c) of
        Inl e \<Rightarrow> Inl e
      | Inr i \<Rightarrow> (case resolve_comb s srcs comb of
                    Inl e \<Rightarrow> Inl e
                  | Inr row \<Rightarrow> Inr (PInt i # row)))"

fun resolve_combs :: "analysis_point \<Rightarrow> pyobj list \<Rightarrow> string list list \<Rightarrow> error + pyobj list list" where
  "resolve_combs s srcs [] = Inr []"
| "resolve_combs s srcs (comb # combs) =
     (case resolve_comb s srcs comb of
        Inl e \<Rightarrow> Inl e
      | Inr row \<Rightarrow> (case resolve_combs s srcs combs of
                      Inl e \<Rightarrow> Inl e
                    | Inr rows \<Rightarrow> Inr (row # rows)))"

definition blinds_combIds ::
  "(pyobj \<Rightarrow> nat) \<Rightarrow> analysis_point \<Rightarrow> string list option \<Rightarrow> error + pyobj list list" where
  "blinds_combIds slot s blindsStateIds =
     (case blindsStateIds of
        Some (cc # ccs) \<Rightarrow>
          (case sources slot s of
             Inl e \<Rightarrow> Inl e
           | Inr srcs \<Rightarrow> resolve_combs s srcs (map (\<lambda>cc. map strip (split_comma cc)) (cc # ccs)))
      | _ \<Rightarrow>
          (case longestStateIds slot s of
             Inl e \<Rightarrow> Inl e
           | Inr combs \<Rightarrow> Inr (map (map PInt) combs)))"

text \<open>
  \<^verbatim>\<open>results[count] = tuple(self.combinedValuesById(hoys, [state] * len(hoys)))\<close>
  for each combination.
\<close>

fun blinds_results ::
  "analysis_point \<Rightarrow> int list \<Rightarrow> pyobj list list
     \<Rightarrow> (error + (real \<times> real option) list list) \<times> analysis_point" where
  "blinds_results s hs [] = (Inr [], s)"
| "blinds_results s hs (state # rest) =
     (case combinedValuesById s (Some hs) (Some (replicate (length hs) state)) of
        (Inl e, s1) \<Rightarrow> (Inl e, s1)
      | (Inr r, s1) \<Rightarrow>
          (case blinds_results s1 hs rest of
             (Inl e, s2) \<Rightarrow> (Inl e, s2)
           | (Inr rs, s2) \<Rightarrow> (Inr (r # rs), s2)))"

text \<open>
  The inner \<^verbatim>\<open>for state in range(len(combIds))\<close> with its \<^verbatim>\<open>else\<close>: the first
  state whose values the logic rejects is found; when the loop runs to its end the
  values of the last state looked at remain in \<^verbatim>\<open>ill, ill_dir\<close> (none when there is
  no state at all).
\<close>

datatype search = Found nat real "real option" | Exhausted "(real \<times> real option) option"

fun search_state ::
  "(real \<Rightarrow> real option \<Rightarrow> int \<Rightarrow> bool) \<Rightarrow> (real \<times> real option) list list \<Rightarrow> int
     \<Rightarrow> nat list \<Rightarrow> (real \<times> real option) option \<Rightarrow> error + search" where
  "search_state lg results h [] seen = Inr (Exhausted seen)"
| "search_state lg results h (state # rest) seen =
     (case py_index results (int state) of
        Inl e \<Rightarrow> Inl e
      | Inr r \<Rightarrow>
          (case py_index r h of
             Inl e \<Rightarrow> Inl e
           | Inr (ill, ill_dir) \<Rightarrow>
               if \<not> lg ill ill_dir h then Inr (Found state ill ill_dir)
               else search_state lg results h rest (Some (ill, ill_dir))))"

type_synonym selection = "int list \<times> real option list \<times> real option list \<times> int list"

definition record_found ::
  "selection \<Rightarrow> int \<Rightarrow> nat \<Rightarrow> real \<Rightarrow> real option \<Rightarrow> error + selection" where
  "record_found sel h state ill ill_dir =
     (case sel of (blindsIndex, illValues, dirValues, success) \<Rightarrow>
        (case py_setitem blindsIndex h (int state) of
           Inl e \<Rightarrow> Inl e
         | Inr blindsIndex' \<Rightarrow>
             (case py_setitem illValues h (Some ill) of
                Inl e \<Rightarrow> Inl e
              | Inr illValues' \<Rightarrow>
                  (case py_setitem dirValues h ill_dir of
                     Inl e \<Rightarrow> Inl e
                   | Inr dirValues' \<Rightarrow>
                       if state > 0
                       then (case py_setitem success h 1 of
                               Inl e \<Rightarrow> Inl e
                             | Inr success' \<Rightarrow> Inr (blindsIndex', illValues', dirValues', success'))
                       else Inr (blindsIndex', illValues', dirValues', success)))))"

definition record_exhausted ::
  "selection \<Rightarrow> int \<Rightarrow> (real \<times> real option) option \<Rightarrow> error + selection" where
  "record_exhausted sel h seen =
     (case sel of (blindsIndex, illValues, dirValues, success) \<Rightarrow>
        (case py_setitem success h (- 1) of
           Inl e \<Rightarrow> Inl e
         | Inr success' \<Rightarrow>
             (case seen of
                None \<Rightarrow> Inl UnboundLocalError
              | Some (ill, ill_dir) \<Rightarrow>
                  (case py_setitem illValues h (Some ill) of
                     Inl e \<Rightarrow> Inl e
                   | Inr illValues' \<Rightarrow>
                       (case py_setitem dirValues h ill_dir of
                          Inl e \<Rightarrow> Inl e
                        | Inr dirValues' \<Rightarrow> Inr (blindsIndex, illValues', dirValues', success'))))))"

text \<open>The outer \<^verbatim>\<open>for h in hoys\<close>.\<close>

fun select_loop ::
  "(real \<Rightarrow> real option \<Rightarrow> int \<Rightarrow> bool) \<Rightarrow> (real \<times> real option) list list \<Rightarrow> nat
     \<Rightarrow> int list \<Rightarrow> selection \<Rightarrow> error + selection" where
  "select_loop lg results ncombs [] sel = Inr sel"
| "select_loop lg results ncombs (h # rest) sel =
     (case search_state lg results h [0..<ncombs] None of
        Inl e \<Rightarrow> Inl e
      | Inr (Found state ill ill_dir) \<Rightarrow>
          (case record_found sel h state ill ill_dir of
             Inl e \<Rightarrow> Inl e
           | Inr sel' \<Rightarrow> select_loop lg results ncombs rest sel')
      | Inr (Exhausted seen) \<Rightarrow>
          (case record_exhausted sel h seen of
             Inl e \<Rightarrow> Inl e
           | Inr sel' \<Rightarrow> select_loop lg results ncombs rest sel'))"

text \<open>\<^verbatim>\<open>tuple(combIds[ids] for ids in blindsIndex)\<close>.\<close>

fun pick_combs :: "pyobj list list \<Rightarrow> int list \<Rightarrow> error + pyobj list list" where
  "pick_combs combIds [] = Inr []"
| "pick_combs combIds (ids # rest) =
     (case py_index combIds ids of
        Inl e \<Rightarrow> Inl e
      | Inr c \<Rightarrow> (case pick_combs combIds rest of
                    Inl e \<Rightarrow> Inl e
                  | Inr cs \<Rightarrow> Inr (c # cs)))"

type_synonym blinds_result =
  "pyobj list list \<times> int list \<times> real option list \<times> real option list \<times> int list"

definition blindsState ::
  "(pyobj \<Rightarrow> nat) \<Rightarrow> analysis_point \<Rightarrow> (real \<Rightarrow> real option \<Rightarrow> int \<Rightarrow> bool) \<Rightarrow> int list option
     \<Rightarrow> string list option \<Rightarrow> (error + blinds_result) \<times> analysis_point" where
  "blindsState slot s logic hoys_arg blindsStateIds =
     (case (case hoys_arg of
              None \<Rightarrow> hoys s
            | Some [] \<Rightarrow> hoys s
            | Some (h # hs) \<Rightarrow> Inr (h # hs)) of
        Inl e \<Rightarrow> (Inl e, s)
      | Inr hs \<Rightarrow>
          (case blinds_combIds slot s blindsStateIds of
             Inl e \<Rightarrow> (Inl e, s)
           | Inr combIds \<Rightarrow>
               (case blinds_results s hs combIds of
                  (Inl e, s1) \<Rightarrow> (Inl e, s1)
                | (Inr results, s1) \<Rightarrow>
                    (let hoursCount = length hs;
                         sel0 = (replicate hoursCount (int (length combIds) - 1),
                                 replicate hoursCount None,
                                 replicate hoursCount None,
                                 replicate hoursCount 0)
                     in case select_loop logic results (length combIds) hs sel0 of
                          Inl e \<Rightarrow> (Inl e, s1)
                        | Inr (blindsIndex, illValues, dirValues, success) \<Rightarrow>
                            (case pick_combs combIds blindsIndex of
                               Inl e \<Rightarrow> (Inl e, s1)
                             | Inr chosen \<Rightarrow>
                                 (Inr (chosen, blindsIndex, illValues, dirValues, success), s1))))))"

section \<open>Annual metrics\<close>

text \<open>
  \<^verbatim>\<open>DAThreshhold or 300.0\<close>: an omitted threshold and the threshold \<open>0\<close> both
  give the default, so the threshold used is never zero.
\<close>

fun threshold_or :: "real option \<Rightarrow> real \<Rightarrow> real" where
  "threshold_or None d = d"
| "threshold_or (Some x) d = (if x = 0 then d else x)"

text \<open>
  \<^verbatim>\<open>schedule = occSchedule or set(hours)\<close>: a collection of numbers, by default the
  hours of the store. The loops test \<^verbatim>\<open>v not in schedule\<close> for each combined
  total \<open>v\<close>.
\<close>

definition schedule_or :: "real list option \<Rightarrow> int list \<Rightarrow> real list" where
  "schedule_or occSchedule hours = or_else occSchedule (map real_of_int hours)"

text \<open>True division: a zero divisor raises ZeroDivisionError.\<close>

definition py_div :: "real \<Rightarrow> int \<Rightarrow> error + real" where
  "py_div a b = (if b = 0 then Inl ZeroDivisionError else Inr (a / real_of_int b))"

text \<open>
  \<^verbatim>\<open>values = tuple(v[0] for v in self.combinedValuesById(hours, blindsStateIds))\<close>
\<close>

definition metric_values ::
  "analysis_point \<Rightarrow> int list \<Rightarrow> pyobj list list option \<Rightarrow> (error + real list) \<times> analysis_point" where
  "metric_values s hours blindsStateIds =
     (case combinedValuesById s (Some hours) blindsStateIds of
        (Inl e, s1) \<Rightarrow> (Inl e, s1)
      | (Inr tds, s1) \<Rightarrow> (Inr (map fst tds), s1))"

text \<open>The loop of \<^verbatim>\<open>daylightAutonomy\<close> over the values, on \<open>(DA, CDA, totalHourCount)\<close>.\<close>

fun da_loop :: "real \<Rightarrow> real list \<Rightarrow> real list \<Rightarrow> real \<times> real \<times> int \<Rightarrow> real \<times> real \<times> int" where
  "da_loop th schedule [] acc = acc"
| "da_loop th schedule (v # vs) (DA, CDA, totalHourCount) =
     (if v \<notin> set schedule then da_loop th schedule vs (DA, CDA, totalHourCount - 1)
      else if v \<ge> th then da_loop th schedule vs (DA + 1, CDA + 1, totalHourCount)
      else da_loop th schedule vs (DA, CDA + v / th, totalHourCount))"

definition daylightAutonomy ::
  "analysis_point \<Rightarrow> real option \<Rightarrow> pyobj list list option \<Rightarrow> real list option
     \<Rightarrow> (error + real \<times> real) \<times> analysis_point" where
  "daylightAutonomy s DAThreshhold blindsStateIds occSchedule =
     (let th = threshold_or DAThreshhold 300
      in case hoys s of
           Inl e \<Rightarrow> (Inl e, s)
         | Inr hours \<Rightarrow>
             (let schedule = schedule_or occSchedule hours
              in case metric_values s hours blindsStateIds of
                   (Inl e, s1) \<Rightarrow> (Inl e, s1)
                 | (Inr vs, s1) \<Rightarrow>
                     (case da_loop th schedule vs (0, 0, int (length hours)) of
                        (DA, CDA, totalHourCount) \<Rightarrow>
                          (case py_div DA totalHourCount of
                             Inl e \<Rightarrow> (Inl e, s1)
                           | Inr da \<Rightarrow>
                               (case py_div CDA totalHourCount of
                                  Inl e \<Rightarrow> (Inl e, s1)
                                | Inr cda \<Rightarrow> (Inr (da, cda), s1))))))"

text \<open>The loop of \<^verbatim>\<open>usefulDaylightIlluminance\<close>, on \<open>(UDI, UDI_l, UDI_m, totalHourCount)\<close>.\<close>

fun udi_loop ::
  "real \<Rightarrow> real \<Rightarrow> real list \<Rightarrow> real list \<Rightarrow> real \<times> real \<times> real \<times> int
     \<Rightarrow> real \<times> real \<times> real \<times> int" where
  "udi_loop udiMin udiMax schedule [] acc = acc"
| "udi_loop udiMin udiMax schedule (v # vs) (UDI, UDI_l, UDI_m, totalHourCount) =
     (if v \<notin> set schedule
      then udi_loop udiMin udiMax schedule vs (UDI, UDI_l, UDI_m, totalHourCount - 1)
      else if v < udiMin
      then udi_loop udiMin udiMax schedule vs (UDI, UDI_l + 1, UDI_m, totalHourCount)
      else if v > udiMax
      then udi_loop udiMin udiMax schedule vs (UDI, UDI_l, UDI_m + 1, totalHourCount)
      else udi_loop udiMin udiMax schedule vs (UDI + 1, UDI_l, UDI_m, totalHourCount))"

definition usefulDaylightIlluminance ::
  "analysis_point \<Rightarrow> (real \<times> real) option \<Rightarrow> pyobj list list option \<Rightarrow> real list option
     \<Rightarrow> (error + real \<times> real \<times> real) \<times> analysis_point" where
  "usefulDaylightIlluminance s UDIMinMax blindsStateIds occSchedule =
     (case (case UDIMinMax of None \<Rightarrow> (100, 2000) | Some mm \<Rightarrow> mm) of
        (udiMin, udiMax) \<Rightarrow>
          (case hoys s of
             Inl e \<Rightarrow> (Inl e, s)
           | Inr hours \<Rightarrow>
               (let schedule = schedule_or occSchedule hours
                in case metric_values s hours blindsStateIds of
                     (Inl e, s1) \<Rightarrow> (Inl e, s1)
                   | (Inr vs, s1) \<Rightarrow>
                       (case udi_loop udiMin udiMax schedule vs (0, 0, 0, int (length hours)) of
                          (UDI, UDI_l, UDI_m, totalHourCount) \<Rightarrow>
                            (case py_div UDI totalHourCount of
                               Inl e \<Rightarrow> (Inl e, s1)
                             | Inr udi \<Rightarrow>
                                 (case py_div UDI_l totalHourCount of
                                    Inl e \<Rightarrow> (Inl e, s1)
                                  | Inr udi_l \<Rightarrow>
                                      (case py_div UDI_m totalHourCount of
                                         Inl e \<Rightarrow> (Inl e, s1)
                                       | Inr udi_m \<Rightarrow> (Inr (udi, udi_l, udi_m), s1))))))))"

text \<open>
  The loop of \<^verbatim>\<open>annualMetrics\<close>, on \<open>(DA, CDA, UDI, UDI_l, UDI_m, totalHourCount)\<close>.
\<close>

fun annual_loop ::
  "real \<Rightarrow> real \<Rightarrow> real \<Rightarrow> real list \<Rightarrow> real list \<Rightarrow> real \<times> real \<times> real \<times> real \<times> real \<times> int
     \<Rightarrow> real \<times> real \<times> real \<times> real \<times> real \<times> int" where
  "annual_loop th udiMin udiMax schedule [] acc = acc"
| "annual_loop th udiMin udiMax schedule (v # vs) (DA, CDA, UDI, UDI_l, UDI_m, totalHourCount) =
     (if v \<notin> set schedule
      then annual_loop th udiMin udiMax schedule vs (DA, CDA, UDI, UDI_l, UDI_m, totalHourCount - 1)
      else (case (if v \<ge> th then (DA + 1, CDA + 1) else (DA, CDA + v / th)) of
              (DA', CDA') \<Rightarrow>
                if v < udiMin
                then annual_loop th udiMin udiMax schedule vs
                       (DA', CDA', UDI, UDI_l + 1, UDI_m, totalHourCount)
                else if v > udiMax
                then annual_loop th udiMin udiMax schedule vs
                       (DA', CDA', UDI, UDI_l, UDI_m + 1, totalHourCount)
                else annual_loop th udiMin udiMax schedule vs
                       (DA', CDA', UDI + 1, UDI_l, UDI_m, totalHourCount)))"

definition annualMetrics ::
  "analysis_point \<Rightarrow> real option \<Rightarrow> (real \<times> real) option \<Rightarrow> pyobj list list option
     \<Rightarrow> real list option \<Rightarrow> (error + real \<times> real \<times> real \<times> real \<times> real) \<times> analysis_point" where
  "annualMetrics s DAThreshhold UDIMinMax blindsStateIds occSchedule =
     (let th = threshold_or DAThreshhold 300
      in case (case UDIMinMax of None \<Rightarrow> (100, 2000) | Some mm \<Rightarrow> mm) of
           (udiMin, udiMax) \<Rightarrow>
             (case hoys s of
                Inl e \<Rightarrow> (Inl e, s)
              | Inr hours \<Rightarrow>
                  (let schedule = schedule_or occSchedule hours
                   in case metric_values s hours blindsStateIds of
                        (Inl e, s1) \<Rightarrow> (Inl e, s1)
                      | (Inr vs, s1) \<Rightarrow>
                          (case annual_loop th udiMin udiMax schedule vs
                                  (0, 0, 0, 0, 0, int (length hours)) of
                             (DA, CDA, UDI, UDI_l, UDI_m, totalHourCount) \<Rightarrow>
                               (case py_div DA totalHourCount of
                                  Inl e \<Rightarrow> (Inl e, s1)
                                | Inr da \<Rightarrow>
                                    (case py_div CDA totalHourCount of
                                       Inl e \<Rightarrow> (Inl e, s1)
                                     | Inr cda \<Rightarrow>
                                         (case py_div UDI totalHourCount of
                                            Inl e \<Rightarrow> (Inl e, s1)
                                          | Inr udi \<Rightarrow>
                                              (case py_div UDI_l totalHourCount of
                                                 Inl e \<Rightarrow> (Inl e, s1)
                                               | Inr udi_l \<Rightarrow>
                                                   (case py_div UDI_m totalHourCount of
                                                      Inl e \<Rightarrow> (Inl e, s1)
                                                    | Inr udi_m \<Rightarrow>
                                                        (Inr (da, cda, udi, udi_l, udi_m), s1))))))))))"

section \<open>Sequences of writes and well-formed stores\<close>

text \<open>
  A sequence of \<open>(hour, total, direct)\<close> triples written one call of
  \<^verbatim>\<open>setCoupledValue\<close> after the other, for one source and state; the sequence stops
  at the first call that raises.
\<close>

fun setCoupledValue_seq ::
  "analysis_point \<Rightarrow> (int \<times> real option \<times> real option) list \<Rightarrow> pyobj \<Rightarrow> pyobj
     \<Rightarrow> (error + unit) \<times> analysis_point" where
  "setCoupledValue_seq s [] source state = (Inr (), s)"
| "setCoupledValue_seq s ((hoy, t, d) # ws) source state =
     (case setCoupledValue s [t, d] hoy source state of
        (Inl e, s1) \<Rightarrow> (Inl e, s1)
      | (Inr u, s1) \<Rightarrow> setCoupledValue_seq s1 ws source state)"

text \<open>
  What the writers keep true of the store: there is a list of series for every
  source registered, the id of every source points into \<^verbatim>\<open>_values\<close>, and every
  state registered for a source has its dictionary there.
\<close>

definition store_ok :: "analysis_point \<Rightarrow> bool" where
  "store_ok s =
     (length (p_sources s) \<le> length (p_values s)
      \<and> list_all (\<lambda>e. src_id (snd e) < length (p_values s)
                      \<and> length (src_state (snd e)) \<le> length (p_values s ! src_id (snd e)))
                 (p_sources s))"

text \<open>
  The source and the state are registered, under the ids \<open>sid\<close> and
  \<open>stateid\<close>, and their series exists.
\<close>

definition registered :: "analysis_point \<Rightarrow> pyobj \<Rightarrow> pyobj \<Rightarrow> nat \<Rightarrow> nat \<Rightarrow> bool" where
  "registered s source state sid stateid =
     (case map_of (p_sources s) source of
        None \<Rightarrow> False
      | Some d \<Rightarrow> src_id d = sid \<and> list_index (src_state d) state = Some stateid
                  \<and> sid < length (p_values s) \<and> stateid < length (p_values s ! sid))"

section \<open>Example stores\<close>

text \<open>Stores built through the class's own writers, used at concrete inputs below.\<close>

definition one_hour_store :: "int \<Rightarrow> real \<Rightarrow> analysis_point" where
  "one_hour_store h v = snd (setValue init (Some v) h PNone PNone False)"

definition two_hour_store :: "real \<Rightarrow> real \<Rightarrow> analysis_point" where
  "two_hour_store v0 v1 = snd (setValues init [Some v0, Some v1] [0, 1] PNone PNone False)"


definition three_sources :: analysis_point where
  "three_sources =
     snd (setValue (snd (setValue (snd (setValue (snd (setValue (snd (setValue
     (snd (setValue (snd (setValue
       init (Some 1) 0 (PStr ''a'') (PStr ''open'') False))
            (Some 1) 0 (PStr ''a'') (PStr ''closed'') False))
            (Some 1) 0 (PStr ''b'') (PStr ''s0'') False))
            (Some 1) 0 (PStr ''b'') (PStr ''s1'') False))
            (Some 1) 0 (PStr ''b'') (PStr ''s2'') False))
            (Some 1) 0 (PStr ''b'') (PStr ''s3'') False))
            (Some 1) 0 (PStr ''c'') (PStr ''only'') False)"

section \<open>Reading an hour that was never written\<close>

lemma py_pos_nat: "py_pos xs (int n) = (if n < length xs then Some n else None)"
  by (simp add: py_pos_def Let_def)

text \<open>
  No reader ever raises the error of the handler for a missing hour: the lookup in a
  default dictionary cannot raise KeyError.
\<close>

lemma read_sample_never_invalid_hoy:
  "fst (read_sample s hoy source state) \<noteq> Inl (ValueError ''Invalid hoy input'')"
  by (auto simp: read_sample_def values_getitem_def invalid_hoy_def sourceId_def blindStateId_def
      split: sum.splits option.splits prod.splits if_splits)

text \<open>
  Whenever the source and the state resolve to a series, the read of an hour the series
  does not hold returns the default sample and leaves it in the series.
\<close>

lemma read_sample_absent_hour:
  assumes "sourceId s source = Inr sid" and "blindStateId s source state = Inr stateid"
      and "py_pos (p_values s) (int sid) = Some i" and "py_pos (p_values s ! i) stateid = Some j"
      and "map_of (p_values s ! i ! j) hoy = None"
  shows "fst (read_sample s hoy source state) = Inr (SList None None)
       \<and> map_of (p_values (snd (read_sample s hoy source state)) ! i ! j) hoy
           = Some (SList None None)"
proof -
  have dm: "map_of (dict_set al k v) k = Some v" for al :: "(int \<times> sample) list" and k v
    by (induction al) auto
  from assms(3) have i: "i < length (p_values s)"
    by (auto simp: py_pos_def Let_def split: if_splits)
  from assms(4) have j: "j < length (p_values s ! i)"
    by (auto simp: py_pos_def Let_def split: if_splits)
  show ?thesis
    using assms i j by (simp add: read_sample_def values_getitem_def defaultdict_getitem_def dm)
qed

text \<open>The sources, the states and the hasDirect flag are not touched by a read.\<close>

lemma read_sample_frame:
  "p_sources (snd (read_sample s hoy source state)) = p_sources s
   \<and> p_isDirectLoaded (snd (read_sample s hoy source state)) = p_isDirectLoaded s"
  by (simp add: read_sample_def values_getitem_def split: sum.splits option.splits prod.splits)

text \<open>
  Claim C1: for an hour for which no sample was ever written, the scalar and batch
  readers raise the lookup error ("invalid hour") and never return a default value.

  The code does not: the series are default dictionaries, so the lookup of a missing
  hour creates \<^verbatim>\<open>[None, None]\<close> and the handler for KeyError is never entered.
  On the store holding the single sample 300 at hour 0, each of the six readers asked
  for hour 99 returns the default instead of raising.
\<close>

theorem absent_hour_read_returns_default:
  "fst (value_of (one_hour_store 0 300) 99 PNone PNone) = Inr None
   \<and> fst (directValue (one_hour_store 0 300) 99 PNone PNone) = Inr None
   \<and> fst (values_of (one_hour_store 0 300) [99] PNone PNone) = Inr [None]
   \<and> fst (directValues (one_hour_store 0 300) [99] PNone PNone) = Inr [None]
   \<and> fst (coupledValue (one_hour_store 0 300) 99 PNone PNone) = Inr (SList None None)
   \<and> fst (coupledValues (one_hour_store 0 300) [99] PNone PNone) = Inr [SList None None]"
  by code_simp

text \<open>
  Claim C4: no reader mutates the store; after a call to a reader the sources, states,
  stored samples (including the hour key set) and the hasDirect flag are as before.

  The code does not keep the hour key set: reading hour 99 from the store that holds
  hour 0 only leaves a sample for hour 99 behind, and \<^verbatim>\<open>hoys\<close> reports it.
\<close>

theorem absent_hour_read_extends_store:
  "hoys (one_hour_store 0 300) = Inr [0]
   \<and> hoys (snd (value_of (one_hour_store 0 300) 99 PNone PNone)) = Inr [0, 99]
   \<and> p_values (one_hour_store 0 300) = [[[(0, SList (Some 300) None)]]]
   \<and> p_values (snd (value_of (one_hour_store 0 300) 99 PNone PNone))
       = [[[(0, SList (Some 300) None), (99, SList None None)]]]
   \<and> hoys (snd (combinedValueById (one_hour_store 0 300) 99 None)) = Inr [0, 99]"
  by code_simp

section \<open>The occupancy schedule\<close>

text \<open>
  The count the loop ends with: one less for every value that is not in the schedule.
\<close>

lemma da_loop_count:
  "snd (snd (da_loop th schedule vs (DA, CDA, c)))
     = c - int (length (filter (\<lambda>v. v \<notin> set schedule) vs))"
  by (induction vs arbitrary: DA CDA c) auto

text \<open>
  Claim C2: when \<^verbatim>\<open>occSchedule\<close> is omitted the metrics apply no filtering; every
  hour of the store contributes and the in-schedule hour count is the number of hours.

  The code tests the illuminance value, not the hour, against the set of hours. On the
  store with the values 1 at hour 0 and 500 at hour 1 the value 500 is dropped (it is
  no hour of the store) and the value 1 is kept (it happens to be one): the count is
  1 instead of 2, and daylight autonomy is 0 instead of 1/2.
\<close>

theorem default_schedule_filters_by_value:
  "hoys (two_hour_store 1 500) = Inr [0, 1]
   \<and> fst (metric_values (two_hour_store 1 500) [0, 1] None) = Inr [1, 500]
   \<and> da_loop 300 (schedule_or None [0, 1]) [1, 500] (0, 0, 2) = (0, 1 / 300, 1)
   \<and> fst (daylightAutonomy (two_hour_store 1 500) None None None) = Inr (0, 1 / 300)
   \<and> fst (usefulDaylightIlluminance (two_hour_store 1 500) None None None) = Inr (0, 1, 0)
   \<and> fst (annualMetrics (two_hour_store 1 500) None None None None) = Inr (0, 1 / 300, 0, 1, 0)"
  by code_simp

lemma one_hour_store_eq:
  "one_hour_store h v =
     \<lparr>p_sources = [(PNone, \<lparr>src_id = 0, src_state = [PNone]\<rparr>)],
      p_values = [[[(h, SList (Some v) None)]]], p_isDirectLoaded = False\<rparr>"
  by (simp add: one_hour_store_def setValue_def init_def createDataStructure_def add_source_def
        add_state_def values_set_slot_def values_getitem_def values_setitem_def py_pos_def
        defaultdict_getitem_def)

lemma one_hour_hoys: "hoys (one_hour_store h v) = Inr [h]"
  by (simp add: one_hour_store_eq hoys_def hasValues_def py_index_def py_pos_def)

lemma one_hour_metric_values:
  "fst (metric_values (one_hour_store h v) [h] None)
     = (if h = 0 \<or> h = - 1 then Inr [v] else Inl IndexError)"
  by (simp add: one_hour_store_eq metric_values_def combinedValuesById_def py_index_def py_pos_def
        source_contribution_def values_getitem_def defaultdict_getitem_def Let_def
      split: prod.splits sum.splits)

text \<open>
  Claim C3: an in-schedule hour whose value is at least the threshold adds 1 to both
  DA and CDA; \<^verbatim>\<open>daylightAutonomy(threshold=300)\<close> on a one-hour series whose value
  is exactly 300 returns DA = 1.0 and CDA = 1.0.

  The loop does add 1 to both counters for a value that passes the schedule test, but
  the call of the claim never gets there, whatever the hour \<open>h\<close> of the series: with
  the default schedule the value 300 is tested against the set of hours \<open>{h}\<close>, the
  hour is dropped, and the division by the count 0 raises (for an hour other than 0
  and -1 the hour, used as a list position, raises IndexError before that). With the
  schedule \<open>{300}\<close> the store with the hour 0 gives \<open>(1, 1)\<close>.
\<close>

theorem daylightAutonomy_at_threshold_one_hour:
  "fst (daylightAutonomy (one_hour_store h 300) (Some 300) None None)
     = (if h = 0 \<or> h = - 1 then Inl ZeroDivisionError else Inl IndexError)
   \<and> fst (daylightAutonomy (one_hour_store 0 300) (Some 300) None (Some [300])) = Inr (1, 1)
   \<and> da_loop 300 [300] [300] (0, 0, 1) = (1, 1, 1)"
proof -
  obtain r s1 where m: "metric_values (one_hour_store h 300) [h] None = (r, s1)"
    by (cases "metric_values (one_hour_store h 300) [h] None")
  with one_hour_metric_values [of h 300]
  have r: "r = (if h = 0 \<or> h = - 1 then Inr [300] else Inl IndexError)"
    by simp
  have a: "fst (daylightAutonomy (one_hour_store h 300) (Some 300) None None)
     = (if h = 0 \<or> h = - 1 then Inl ZeroDivisionError else Inl IndexError)"
    by (auto simp: daylightAutonomy_def one_hour_hoys m r schedule_or_def py_div_def)
  have b: "fst (daylightAutonomy (one_hour_store 0 300) (Some 300) None (Some [300])) = Inr (1, 1)"
    by code_simp
  have c: "da_loop 300 [300] [300] (0, 0, 1) = (1, 1, 1)"
    by simp
  show ?thesis using a b c by simp
qed

section \<open>Hours used as list positions\<close>

text \<open>
  Claim C6: for an hours list and a state-id matrix of equal length,
  \<^verbatim>\<open>combinedValuesById\<close> yields one pair per hour, in the order given, the i-th pair
  combining the sources under the i-th row of the matrix at the i-th hour.

  The code takes the row \<^verbatim>\<open>blindsStateIds[hoy]\<close>: the hour itself is the index.
  For the hours \<open>[1, 0]\<close> the first pair is computed under row 1 and the second under
  row 0; for the single hour 5 and a one-row matrix the lookup raises IndexError.
\<close>

theorem combinedValuesById_row_by_hour_value:
  "fst (combinedValuesById (two_hour_store 10 20) (Some [1, 0]) (Some [[PInt 0], [PInt (- 1)]]))
     = Inr [(0, None), (10, None)]
   \<and> fst (combinedValueById (two_hour_store 10 20) 1 (Some [PInt 0])) = Inr (20, None)
   \<and> fst (combinedValueById (two_hour_store 10 20) 0 (Some [PInt (- 1)])) = Inr (0, None)
   \<and> fst (combinedValuesById (one_hour_store 5 300) (Some [5]) (Some [[PInt 0]])) = Inl IndexError"
  by code_simp

lemma iteritems_single: "iteritems slot [e] = [e]"
  by (simp add: iteritems_def)

lemma one_hour_combIds:
  "blinds_combIds slot (one_hour_store h v) None = Inr [[PInt 0]]"
  by (simp add: one_hour_store_eq blinds_combIds_def longestStateIds_def iteritems_single)

text \<open>
  Claim C5: for every hour at which the control predicate is true for every candidate
  combination, \<^verbatim>\<open>blindsState\<close> raises no exception and records the flag -1 with the
  combination, index and values of the last candidate evaluated.

  On a store whose only hour is 0 the code does so. On a store whose only hour is 5,
  where the default predicate is true as well (3000 > 2000), the candidates are never
  evaluated: the hour is used as a list position and the call raises IndexError. The
  store has one source, so the order of iteration of the dictionary plays no part: the
  result is the same for every \<open>slot\<close>.
\<close>

theorem blindsState_hour_not_a_position:
  "fst (blindsState slot (one_hour_store 0 3000) default_logic None None)
     = Inr ([[PInt 0]], [0], [Some 3000], [None], [- 1])
   \<and> hoys (one_hour_store 5 3000) = Inr [5]
   \<and> fst (combinedValueById (one_hour_store 5 3000) 5 None) = Inr (3000, None)
   \<and> default_logic 3000 None 5
   \<and> fst (blindsState slot (one_hour_store 5 3000) default_logic None None) = Inl IndexError"
proof -
  have same: "blindsState slot (one_hour_store h v) lg hs None
      = blindsState (\<lambda>k. 0) (one_hour_store h v) lg hs None" for h v lg hs
    unfolding blindsState_def one_hour_combIds by (rule refl)
  have a: "fst (blindsState (\<lambda>k. 0) (one_hour_store 0 3000) default_logic None None)
     = Inr ([[PInt 0]], [0], [Some 3000], [None], [- 1])"
    by code_simp
  have b: "hoys (one_hour_store 5 3000) = Inr [5]" by code_simp
  have c: "fst (combinedValueById (one_hour_store 5 3000) 5 None) = Inr (3000, None)"
    by code_simp
  have d: "default_logic 3000 None 5" by code_simp
  have e: "fst (blindsState (\<lambda>k. 0) (one_hour_store 5 3000) default_logic None None)
     = Inl IndexError"
    by code_simp
  show ?thesis using a b c d e by (simp add: same)
qed

section \<open>The longest state combinations\<close>

text \<open>
  Whatever the order of iteration, \<^verbatim>\<open>longestStateIds\<close> of a store with a source has
  (max over all sources of stateCount - 1) + 1 vectors, and the vector at index \<open>i\<close>
  holds \<open>min(i, stateCount - 1)\<close> for the sources in the order of iteration.
\<close>

lemma iteritems_set: "set (iteritems slot d) = set d"
  by (simp add: iteritems_def)

lemma iteritems_length: "length (iteritems slot d) = length d"
  by (simp add: iteritems_def)

lemma longestStateIds_in_iteration_order:
  assumes "p_sources s \<noteq> []"
  shows "\<exists>combs. longestStateIds slot s = Inr combs
      \<and> length combs
          = nat (Max (set (map (\<lambda>e. int (length (src_state (snd e))) - 1) (p_sources s))) + 1)
      \<and> (\<forall>i < length combs.
            combs ! i = map (\<lambda>e. min (int i) (int (length (src_state (snd e))) - 1))
                          (iteritems slot (p_sources s)))"
proof -
  let ?states = "map (\<lambda>e. int (length (src_state (snd e))) - 1) (iteritems slot (p_sources s))"
  let ?combs = "map (\<lambda>i. map (\<lambda>st. min st i) ?states) [0..<nat (Max (set ?states) + 1)]"
  have "length ?states = length (p_sources s)" by (simp add: iteritems_length)
  with assms have ne: "?states \<noteq> []" by auto
  have r: "longestStateIds slot s = Inr ?combs"
    using ne by (simp add: longestStateIds_def Let_def)
  have st: "set ?states = set (map (\<lambda>e. int (length (src_state (snd e))) - 1) (p_sources s))"
    by (simp add: iteritems_set)
  have len: "length ?combs
      = nat (Max (set (map (\<lambda>e. int (length (src_state (snd e))) - 1) (p_sources s))) + 1)"
    using st by simp
  have nth: "\<forall>i < length ?combs.
      ?combs ! i = map (\<lambda>e. min (int i) (int (length (src_state (snd e))) - 1))
                     (iteritems slot (p_sources s))"
    by (simp add: min.commute)
  show ?thesis using r len nth by blast
qed

text \<open>
  Claim C8: \<^verbatim>\<open>longestStateIds\<close> returns a sequence of length (max over all sources
  of stateCount - 1) + 1 whose vector at index \<open>i\<close> assigns to every source the id
  \<open>min(i, stateCount - 1)\<close>; for sources with state counts \<open>[2, 4, 1]\<close> the sequence
  has length 4 and its last element is \<open>(1, 3, 0)\<close>.

  The length is as claimed, but a vector lists the sources in the order of iteration of
  the dictionary, while \<^verbatim>\<open>sources\<close> and the combined values take position \<open>k\<close> of a
  vector for the source with id \<open>k\<close>. For the sources \<open>a\<close>, \<open>b\<close>, \<open>c\<close>, registered
  in this order with 2, 4 and 1 states, CPython 2.7 iterates \<open>a\<close>, \<open>c\<close>, \<open>b\<close>
  (slots 0, 2, 3): the last vector is \<open>(1, 0, 3)\<close>. Position 2 of a vector is read
  as the state of the source with id 2, which is \<open>c\<close> with its single state, so
  already the second vector \<open>(1, 0, 1)\<close> asks for a state that does not exist, and
  \<^verbatim>\<open>blindsState\<close> with its default combinations raises.
\<close>

theorem longestStateIds_follows_dictionary_order:
  "string_hash ''a'' = 12416037344
   \<and> map cpython27_slot [PStr ''a'', PStr ''b'', PStr ''c''] = [0, 3, 2]
   \<and> map (\<lambda>e. (fst e, src_id (snd e), length (src_state (snd e)))) (p_sources three_sources)
       = [(PStr ''a'', 0, 2), (PStr ''b'', 1, 4), (PStr ''c'', 2, 1)]
   \<and> sources cpython27_slot three_sources = Inr [PStr ''a'', PStr ''b'', PStr ''c'']
   \<and> longestStateIds cpython27_slot three_sources
       = Inr [[0, 0, 0], [1, 0, 1], [1, 0, 2], [1, 0, 3]]
   \<and> fst (blindsState cpython27_slot three_sources default_logic None None)
       = Inl (ValueError ''Invalid input'')"
  by code_simp

section \<open>Ratio metrics with no in-schedule hour\<close>

lemma combinedValues_loop_length:
  "combinedValues_loop s m dv hs = (Inr tds, s1) \<Longrightarrow> length tds = length hs"
proof (induction hs arbitrary: s tds)
  case Nil
  then show ?case by simp
next
  case (Cons h hs)
  then show ?case
    by (auto split: sum.splits prod.splits)
qed

lemma metric_values_length:
  assumes "hoys s = Inr hours" and "metric_values s hours ids = (Inr vs, s1)"
  shows "length vs = length hours"
proof -
  from assms(2) obtain tds where
    c: "combinedValuesById s (Some hours) ids = (Inr tds, s1)" and v: "vs = map fst tds"
    by (auto simp: metric_values_def split: sum.splits prod.splits)
  have "\<exists>m dv. combinedValues_loop s m dv hours = (Inr tds, s1)"
  proof (cases hours)
    case Nil
    with c assms(1) show ?thesis
      by (auto simp: combinedValuesById_def Let_def split: if_splits)
  next
    case (Cons h hs)
    with c show ?thesis
      by (auto simp del: combinedValues_loop.simps simp: combinedValuesById_def Let_def
            split: if_splits)
  qed
  then have "length tds = length hours"
    by (auto dest: combinedValues_loop_length)
  with v show ?thesis by simp
qed

lemma da_loop_none_in_schedule:
  "filter (\<lambda>v. v \<in> set schedule) vs = [] \<Longrightarrow>
     da_loop th schedule vs (DA, CDA, c) = (DA, CDA, c - int (length vs))"
  by (induction vs arbitrary: c) (auto split: if_splits)

lemma udi_loop_none_in_schedule:
  "filter (\<lambda>v. v \<in> set schedule) vs = [] \<Longrightarrow>
     udi_loop lo hi schedule vs (U, L, M, c) = (U, L, M, c - int (length vs))"
  by (induction vs arbitrary: c) (auto split: if_splits)

lemma annual_loop_none_in_schedule:
  "filter (\<lambda>v. v \<in> set schedule) vs = [] \<Longrightarrow>
     annual_loop th lo hi schedule vs (DA, CDA, U, L, M, c)
       = (DA, CDA, U, L, M, c - int (length vs))"
  by (induction vs arbitrary: c) (auto split: if_splits)

text \<open>
  Claim C9: if the in-schedule hour count reaches zero, the ratio metrics raise a
  ValidationError instead of propagating the raw division failure.

  The code has no such check in any of the three metrics; on the empty store the
  division by the count 0 is what raises.
\<close>

theorem ratio_metrics_raw_division_error:
  "fst (daylightAutonomy init None None None) = Inl ZeroDivisionError
   \<and> fst (usefulDaylightIlluminance init None None None) = Inl ZeroDivisionError
   \<and> fst (annualMetrics init None None None None) = Inl ZeroDivisionError"
  by code_simp

text \<open>
  Claim C9 as amended: if the hours of the store and the combined values are obtained
  and no value passes the schedule test, so that the in-schedule hour count reaches
  zero, each of \<^verbatim>\<open>daylightAutonomy\<close>, \<^verbatim>\<open>usefulDaylightIlluminance\<close> and
  \<^verbatim>\<open>annualMetrics\<close> raises ZeroDivisionError, the failure of its first division.
\<close>

theorem ratio_metrics_zero_count:
  assumes h: "hoys s = Inr hours"
      and m: "metric_values s hours ids = (Inr vs, s1)"
      and z: "filter (\<lambda>v. v \<in> set (schedule_or occSchedule hours)) vs = []"
  shows "daylightAutonomy s th ids occSchedule = (Inl ZeroDivisionError, s1)
       \<and> usefulDaylightIlluminance s mm ids occSchedule = (Inl ZeroDivisionError, s1)
       \<and> annualMetrics s th mm ids occSchedule = (Inl ZeroDivisionError, s1)"
proof -
  have len: "length vs = length hours" using h m by (rule metric_values_length)
  have da: "daylightAutonomy s th ids occSchedule = (Inl ZeroDivisionError, s1)"
    by (simp add: daylightAutonomy_def h m Let_def da_loop_none_in_schedule [OF z] len py_div_def)
  have udi: "usefulDaylightIlluminance s mm ids occSchedule = (Inl ZeroDivisionError, s1)"
    by (simp add: usefulDaylightIlluminance_def h m Let_def udi_loop_none_in_schedule [OF z]
          len py_div_def split: option.splits prod.splits)
  have am: "annualMetrics s th mm ids occSchedule = (Inl ZeroDivisionError, s1)"
    by (simp add: annualMetrics_def h m Let_def annual_loop_none_in_schedule [OF z]
          len py_div_def split: option.splits prod.splits)
  show ?thesis using da udi am by simp
qed

theorem ratio_metrics_zero_count_witness:
  "hoys (one_hour_store 0 300) = Inr [0]
   \<and> metric_values (one_hour_store 0 300) [0] None = (Inr [300], one_hour_store 0 300)
   \<and> filter (\<lambda>v. v \<in> set (schedule_or None [0])) [300 :: real] = []
   \<and> daylightAutonomy (one_hour_store 0 300) None None None
       = (Inl ZeroDivisionError, one_hour_store 0 300)
   \<and> usefulDaylightIlluminance (one_hour_store 0 300) None None None
       = (Inl ZeroDivisionError, one_hour_store 0 300)
   \<and> annualMetrics (one_hour_store 0 300) None None None None
       = (Inl ZeroDivisionError, one_hour_store 0 300)"
proof -
  have h: "hoys (one_hour_store 0 300) = Inr [0]" by code_simp
  have m: "metric_values (one_hour_store 0 300) [0] None = (Inr [300], one_hour_store 0 300)"
    by code_simp
  have z: "filter (\<lambda>v. v \<in> set (schedule_or None [0])) [300 :: real] = []" by code_simp
  show ?thesis using h m z ratio_metrics_zero_count [OF h m z, of None None] by simp
qed

section \<open>Combined values: the direct component and excluded sources\<close>










section \<open>Writing and reading coupled values\<close>

lemma dict_set_map_of: "map_of (dict_set al k v) = (map_of al)(k \<mapsto> v)"
  by (induction al) auto

lemma dict_set_length_new: "k \<notin> fst ` set al \<Longrightarrow> length (dict_set al k v) = Suc (length al)"
  by (induction al) auto

lemma dict_set_list_all: "list_all P al \<Longrightarrow> P (k, v) \<Longrightarrow> list_all P (dict_set al k v)"
  by (induction al) auto

lemma list_index_bound: "list_index xs x = Some i \<Longrightarrow> i < length xs"
  by (induction xs arbitrary: i) (auto split: if_splits)

lemma list_index_mem: "x \<in> set xs \<Longrightarrow> \<exists>i. list_index xs x = Some i"
  by (induction xs) auto

lemma list_index_Some_mem: "list_index xs x = Some i \<Longrightarrow> x \<in> set xs"
  by (induction xs arbitrary: i) (auto split: if_splits)

lemma list_index_append_new: "x \<notin> set xs \<Longrightarrow> list_index (xs @ [x]) x = Some (length xs)"
  by (induction xs) auto

lemma store_ok_entry:
  assumes "store_ok s" and "map_of (p_sources s) source = Some d"
  shows "src_id d < length (p_values s) \<and> length (src_state d) \<le> length (p_values s ! src_id d)"
proof -
  from assms(2) have "(source, d) \<in> set (p_sources s)" by (rule map_of_SomeD)
  with assms(1) show ?thesis by (auto simp: store_ok_def list_all_iff)
qed

lemma add_source_ok:
  assumes "store_ok s"
  shows "store_ok (add_source s source) \<and> (\<exists>d. map_of (p_sources (add_source s source)) source = Some d)"
proof (cases "source \<in> set (map fst (p_sources s))")
  case True
  then have "add_source s source = s" by (simp add: add_source_def)
  moreover from True have "map_of (p_sources s) source \<noteq> None"
    by (simp add: map_of_eq_None_iff)
  ultimately show ?thesis using assms by auto
next
  case False
  let ?e = "\<lparr>src_id = length (p_sources s), src_state = []\<rparr>"
  let ?s1 = "s\<lparr>p_sources := dict_set (p_sources s) source ?e, p_values := p_values s @ [[]]\<rparr>"
  from False have eq: "add_source s source = ?s1" by (simp add: add_source_def)
  from False have len: "length (dict_set (p_sources s) source ?e) = Suc (length (p_sources s))"
    by (intro dict_set_length_new) simp
  let ?P = "\<lambda>e. src_id (snd e) < length (p_values s @ [[]])
              \<and> length (src_state (snd e)) \<le> length ((p_values s @ [[]]) ! src_id (snd e))"
  have old: "list_all ?P (p_sources s)"
    using assms by (auto simp: store_ok_def list_all_iff nth_append)
  have new: "?P (source, ?e)" using assms by (simp add: store_ok_def)
  have "list_all ?P (dict_set (p_sources s) source ?e)"
    using old new by (rule dict_set_list_all)
  then have "store_ok ?s1" using assms len by (simp add: store_ok_def)
  moreover have "map_of (p_sources ?s1) source = Some ?e" by (simp add: dict_set_map_of)
  ultimately show ?thesis using eq by auto
qed

lemma add_state_registered:
  assumes ok: "store_ok s" and d: "map_of (p_sources s) source = Some d"
  shows "\<exists>s2 stateid. add_state s source d state = (Inr (), s2)
           \<and> registered s2 source state (src_id d) stateid"
proof -
  from store_ok_entry [OF ok d] have sid: "src_id d < length (p_values s)"
    and st: "length (src_state d) \<le> length (p_values s ! src_id d)" by simp_all
  show ?thesis
  proof (cases "state \<in> set (src_state d)")
    case True
    then obtain i where i: "list_index (src_state d) state = Some i"
      using list_index_mem by fastforce
    from list_index_bound [OF i] st have "i < length (p_values s ! src_id d)" by simp
    with True i d sid show ?thesis
      by (auto simp: add_state_def registered_def)
  next
    case False
    let ?d = "d\<lparr>src_state := src_state d @ [state]\<rparr>"
    let ?s2 = "s\<lparr>p_sources := dict_set (p_sources s) source ?d\<rparr>"
    let ?s3 = "?s2\<lparr>p_values := (p_values ?s2)[src_id d := p_values ?s2 ! src_id d @ [[]]]\<rparr>"
    from False sid have eq: "add_state s source d state = (Inr (), ?s3)"
      by (simp add: add_state_def Let_def py_pos_nat)
    have "registered ?s3 source state (src_id d) (length (src_state d))"
      using sid st False by (simp add: registered_def dict_set_map_of list_index_append_new)
    with eq show ?thesis by blast
  qed
qed

lemma createDataStructure_registers:
  assumes ok: "store_ok s"
  shows "\<exists>sid stateid s1. createDataStructure s source state = (Inr (sid, stateid), s1)
           \<and> registered s1 source state sid stateid"
proof -
  from add_source_ok [OF ok] obtain d where
    ok1: "store_ok (add_source s source)" and d: "map_of (p_sources (add_source s source)) source = Some d"
    by blast
  from add_state_registered [OF ok1 d] obtain s2 stateid where
    a: "add_state (add_source s source) source d state = (Inr (), s2)"
    and r: "registered s2 source state (src_id d) stateid" by blast
  from r obtain d2 where d2: "map_of (p_sources s2) source = Some d2"
    and i: "list_index (src_state d2) state = Some stateid"
    by (auto simp: registered_def split: option.splits)
  have "createDataStructure s source state = (Inr (src_id d, stateid), s2)"
    by (simp add: createDataStructure_def Let_def d a d2 i)
  with r show ?thesis by blast
qed

lemma createDataStructure_registered:
  assumes r: "registered s source state sid stateid"
  shows "createDataStructure s source state = (Inr (sid, stateid), s)"
proof -
  from r obtain d where d: "map_of (p_sources s) source = Some d" and sid: "src_id d = sid"
    and i: "list_index (src_state d) state = Some stateid"
    by (auto simp: registered_def split: option.splits)
  from d have "source \<in> set (map fst (p_sources s))"
    by (metis map_of_eq_None_iff option.distinct(1) set_map)
  then have a: "add_source s source = s" by (simp add: add_source_def)
  from list_index_Some_mem [OF i] have b: "add_state s source d state = (Inr (), s)"
    by (simp add: add_state_def)
  show ?thesis by (simp add: createDataStructure_def Let_def a d b i sid)
qed

text \<open>The store after the assignment of a sample to an hour of a series.\<close>

lemma coupled_assign_registered:
  assumes r: "registered s source state sid stateid"
  shows "\<exists>s1. coupled_assign s (int sid) (int stateid) hoy [t, d] = (Inr (), s1)
          \<and> registered s1 source state sid stateid
          \<and> registered (s1\<lparr>p_isDirectLoaded := True\<rparr>) source state sid stateid
          \<and> map_of (p_values s1 ! sid ! stateid) = (map_of (p_values s ! sid ! stateid))(hoy \<mapsto> STuple t d)"
proof -
  from r have sid: "sid < length (p_values s)" and st: "stateid < length (p_values s ! sid)"
    by (auto simp: registered_def split: option.splits)
  let ?s1 = "s\<lparr>p_values := (p_values s)
               [sid := (p_values s ! sid)[stateid := dict_set (p_values s ! sid ! stateid) hoy (STuple t d)]]\<rparr>"
  have "coupled_assign s (int sid) (int stateid) hoy [t, d] = (Inr (), ?s1)"
    using sid st by (simp add: coupled_assign_def py_index_def py_pos_def values_setitem_def Let_def)
  moreover have "registered ?s1 source state sid stateid"
    using r sid st by (auto simp: registered_def split: option.splits)
  moreover have "registered (?s1\<lparr>p_isDirectLoaded := True\<rparr>) source state sid stateid"
    using r sid st by (auto simp: registered_def split: option.splits)
  moreover have "map_of (p_values ?s1 ! sid ! stateid) = (map_of (p_values s ! sid ! stateid))(hoy \<mapsto> STuple t d)"
    using sid st by (simp add: dict_set_map_of)
  ultimately show ?thesis by blast
qed

lemma setCoupledValue_registered:
  assumes r: "registered s source state sid stateid"
  shows "\<exists>s1. setCoupledValue s [t, d] hoy source state = (Inr (), s1)
          \<and> registered s1 source state sid stateid
          \<and> map_of (p_values s1 ! sid ! stateid) = (map_of (p_values s ! sid ! stateid))(hoy \<mapsto> STuple t d)"
proof -
  from coupled_assign_registered [OF r, of hoy t d] obtain s1 where
    a: "coupled_assign s (int sid) (int stateid) hoy [t, d] = (Inr (), s1)"
    and r1: "registered (s1\<lparr>p_isDirectLoaded := True\<rparr>) source state sid stateid"
    and m: "map_of (p_values s1 ! sid ! stateid) = (map_of (p_values s ! sid ! stateid))(hoy \<mapsto> STuple t d)"
    by blast
  have "setCoupledValue s [t, d] hoy source state = (Inr (), s1\<lparr>p_isDirectLoaded := True\<rparr>)"
    by (simp add: setCoupledValue_def createDataStructure_registered [OF r] a)
  with r1 m show ?thesis by auto
qed

lemma setCoupledValue_seq_registered:
  assumes "registered s source state sid stateid"
  shows "\<exists>s1. setCoupledValue_seq s ws source state = (Inr (), s1)
          \<and> registered s1 source state sid stateid
          \<and> map_of (p_values s1 ! sid ! stateid)
              = map_of (p_values s ! sid ! stateid) ++ map_of (rev (map (\<lambda>(h, t, d). (h, STuple t d)) ws))"
  using assms
proof (induction ws arbitrary: s)
  case Nil
  then show ?case by simp
next
  case (Cons w ws)
  obtain h t d where w: "w = (h, t, d)" by (cases w)
  from setCoupledValue_registered [OF Cons.prems, of t d h] obtain s1 where
    a: "setCoupledValue s [t, d] h source state = (Inr (), s1)"
    and r1: "registered s1 source state sid stateid"
    and m1: "map_of (p_values s1 ! sid ! stateid) = (map_of (p_values s ! sid ! stateid))(h \<mapsto> STuple t d)"
    by blast
  from Cons.IH [OF r1] obtain s2 where
    b: "setCoupledValue_seq s1 ws source state = (Inr (), s2)"
    and r2: "registered s2 source state sid stateid"
    and m2: "map_of (p_values s2 ! sid ! stateid)
              = map_of (p_values s1 ! sid ! stateid) ++ map_of (rev (map (\<lambda>(h, t, d). (h, STuple t d)) ws))"
    by blast
  have "setCoupledValue_seq s (w # ws) source state = (Inr (), s2)"
    by (simp add: w a b)
  moreover have "map_of (p_values s2 ! sid ! stateid)
      = map_of (p_values s ! sid ! stateid) ++ map_of (rev (map (\<lambda>(h, t, d). (h, STuple t d)) (w # ws)))"
    unfolding m2 m1 by (simp add: w fun_eq_iff map_add_def split: option.splits)
  ultimately show ?case using r2 by blast
qed


lemma registered_flag:
  "registered (s\<lparr>p_isDirectLoaded := b\<rparr>) source state sid stateid
     = registered s source state sid stateid"
  by (simp add: registered_def split: option.splits)

lemma setCoupledValues_loop_registered:
  assumes "registered s source state sid stateid"
  shows "\<exists>s1. setCoupledValues_loop s (int sid) (int stateid) (map (\<lambda>(h, t, d). (h, [t, d])) ws)
               = (Inr (), s1)
          \<and> registered s1 source state sid stateid
          \<and> map_of (p_values s1 ! sid ! stateid)
              = map_of (p_values s ! sid ! stateid) ++ map_of (rev (map (\<lambda>(h, t, d). (h, STuple t d)) ws))"
  using assms
proof (induction ws arbitrary: s)
  case Nil
  then show ?case by simp
next
  case (Cons w ws)
  obtain h t d where w: "w = (h, t, d)" by (cases w)
  from coupled_assign_registered [OF Cons.prems, of h t d] obtain s1 where
    a: "coupled_assign s (int sid) (int stateid) h [t, d] = (Inr (), s1)"
    and r1: "registered s1 source state sid stateid"
    and m1: "map_of (p_values s1 ! sid ! stateid) = (map_of (p_values s ! sid ! stateid))(h \<mapsto> STuple t d)"
    by blast
  from Cons.IH [OF r1] obtain s2 where
    b: "setCoupledValues_loop s1 (int sid) (int stateid) (map (\<lambda>(h, t, d). (h, [t, d])) ws) = (Inr (), s2)"
    and r2: "registered s2 source state sid stateid"
    and m2: "map_of (p_values s2 ! sid ! stateid)
              = map_of (p_values s1 ! sid ! stateid) ++ map_of (rev (map (\<lambda>(h, t, d). (h, STuple t d)) ws))"
    by blast
  have "setCoupledValues_loop s (int sid) (int stateid) (map (\<lambda>(h, t, d). (h, [t, d])) (w # ws)) = (Inr (), s2)"
    by (simp add: w a b)
  moreover have "map_of (p_values s2 ! sid ! stateid)
      = map_of (p_values s ! sid ! stateid) ++ map_of (rev (map (\<lambda>(h, t, d). (h, STuple t d)) (w # ws)))"
    unfolding m2 m1 by (simp add: w fun_eq_iff map_add_def split: option.splits)
  ultimately show ?case using r2 by blast
qed

lemma zip_hours_values:
  "zip (map fst ws) (map (\<lambda>(h, t, d). [t, d]) ws) = map (\<lambda>(h, t, d). (h, [t, d])) ws"
  by (induction ws) auto

lemma map_of_as_samples:
  "map_of (map (\<lambda>(h, t, d). (h, STuple t d)) xs) h
     = map_option (\<lambda>(t, d). STuple t d) (map_of xs h)"
  by (induction xs) auto

lemma written_last:
  assumes "map_of (rev ws) h = Some (t, d)"
  shows "(m ++ map_of (rev (map (\<lambda>(h, t, d). (h, STuple t d)) ws))) h = Some (STuple t d)"
  using assms by (simp add: rev_map map_of_as_samples map_add_def)

lemma coupledValue_registered:
  assumes r: "registered s source state sid stateid"
      and nd: "\<not> str_isdigit state"
      and m: "map_of (p_values s ! sid ! stateid) h = Some v"
  shows "coupledValue s h source state = (Inr v, s)"
proof -
  from r obtain e where e: "map_of (p_sources s) source = Some e" and sid: "src_id e = sid"
    and i: "list_index (src_state e) state = Some stateid"
    and b1: "sid < length (p_values s)" and b2: "stateid < length (p_values s ! sid)"
    by (auto simp: registered_def split: option.splits)
  have s1: "sourceId s source = Inr sid" by (simp add: sourceId_def e sid)
  have s2: "blindStateId s source state = Inr (int stateid)"
    by (simp add: blindStateId_def nd e i)
  have s3: "values_getitem s (int sid) (int stateid) h = (Inr v, s)"
    using b1 b2 m by (simp add: values_getitem_def py_pos_nat defaultdict_getitem_def)
  show ?thesis by (simp add: coupledValue_def read_sample_def s1 s2 s3)
qed

text \<open>
  Claim C10: for every sequence of \<open>(hour, total, direct)\<close> triples written with
  \<^verbatim>\<open>setCoupledValue\<close> (or \<^verbatim>\<open>setCoupledValues\<close>) for a fixed source and state,
  reading each hour with \<^verbatim>\<open>coupledValue\<close> returns the pair written for it.

  This fails for a state whose identifier is numeric: the writer registers the
  identifier as a name, the reader takes it as the index itself. Written under the
  first state \<open>1\<close>, the hour is read from the missing state index 1 and raises
  IndexError; with the states \<open>'1'\<close> and \<open>'0'\<close> registered in this order, reading
  state \<open>'0'\<close> returns what was written for state \<open>'1'\<close>.
\<close>

theorem coupled_round_trip_numeric_state:
  "fst (setCoupledValue init [Some 1, Some 2] 0 PNone (PInt 1)) = Inr ()
   \<and> fst (coupledValue (snd (setCoupledValue init [Some 1, Some 2] 0 PNone (PInt 1))) 0 PNone (PInt 1))
       = Inl IndexError
   \<and> fst (setCoupledValue_seq init [(0, Some 3, Some 4)] PNone (PStr ''0'')) = Inr ()
   \<and> fst (coupledValue
            (snd (setCoupledValue_seq (snd (setCoupledValue init [Some 1, Some 2] 0 PNone (PStr ''1'')))
                    [(0, Some 3, Some 4)] PNone (PStr ''0'')))
            0 PNone (PStr ''0''))
       = Inr (STuple (Some 1) (Some 2))"
  by code_simp

text \<open>
  Claim C10 as amended: on a well-formed store, for a source and a state whose
  identifier is not numeric (not a non-negative integer or a string of digits), every
  sequence of triples written with \<^verbatim>\<open>setCoupledValue\<close>, call after call, or with one
  call of \<^verbatim>\<open>setCoupledValues\<close>, is written without error, and afterwards reading an
  hour with \<^verbatim>\<open>coupledValue\<close> returns exactly the pair written for it (the last one,
  when the hour was written more than once) and leaves the store as it is.
\<close>

theorem coupled_round_trip:
  assumes ok: "store_ok s" and nd: "\<not> str_isdigit state"
  shows "(\<exists>s1. setCoupledValue_seq s ws source state = (Inr (), s1)
            \<and> (\<forall>h t d. map_of (rev ws) h = Some (t, d)
                  \<longrightarrow> coupledValue s1 h source state = (Inr (STuple t d), s1)))
       \<and> (\<exists>s1. setCoupledValues s (map (\<lambda>(h, t, d). [t, d]) ws) (map fst ws) source state = (Inr (), s1)
            \<and> (\<forall>h t d. map_of (rev ws) h = Some (t, d)
                  \<longrightarrow> coupledValue s1 h source state = (Inr (STuple t d), s1)))"
proof -
  from createDataStructure_registers [OF ok] obtain sid stateid s0 where
    c: "createDataStructure s source state = (Inr (sid, stateid), s0)"
    and r0: "registered s0 source state sid stateid" by blast
  have c0: "createDataStructure s0 source state = (Inr (sid, stateid), s0)"
    using r0 by (rule createDataStructure_registered)
  have first: "setCoupledValue s v h source state = setCoupledValue s0 v h source state" for v h
    by (simp add: setCoupledValue_def c c0)
  have seq: "\<exists>s1. setCoupledValue_seq s ws source state = (Inr (), s1)
            \<and> (\<forall>h t d. map_of (rev ws) h = Some (t, d)
                  \<longrightarrow> coupledValue s1 h source state = (Inr (STuple t d), s1))"
  proof (cases ws)
    case Nil
    then show ?thesis by simp
  next
    case (Cons w ws')
    obtain h t d where w: "w = (h, t, d)" by (cases w)
    have eq: "setCoupledValue_seq s ws source state = setCoupledValue_seq s0 ws source state"
      by (simp add: Cons w first)
    from setCoupledValue_seq_registered [OF r0, of ws] obtain s1 where
      a: "setCoupledValue_seq s0 ws source state = (Inr (), s1)"
      and r1: "registered s1 source state sid stateid"
      and m1: "map_of (p_values s1 ! sid ! stateid)
              = map_of (p_values s0 ! sid ! stateid) ++ map_of (rev (map (\<lambda>(h, t, d). (h, STuple t d)) ws))"
      by blast
    have "coupledValue s1 h' source state = (Inr (STuple t' d'), s1)"
      if "map_of (rev ws) h' = Some (t', d')" for h' t' d'
      using coupledValue_registered [OF r1 nd] written_last [OF that] m1 by simp
    with a eq show ?thesis by auto
  qed
  have batch: "\<exists>s1. setCoupledValues s (map (\<lambda>(h, t, d). [t, d]) ws) (map fst ws) source state = (Inr (), s1)
            \<and> (\<forall>h t d. map_of (rev ws) h = Some (t, d)
                  \<longrightarrow> coupledValue s1 h source state = (Inr (STuple t d), s1))"
  proof -
    from setCoupledValues_loop_registered [OF r0, of ws] obtain s1 where
      a: "setCoupledValues_loop s0 (int sid) (int stateid) (map (\<lambda>(h, t, d). (h, [t, d])) ws) = (Inr (), s1)"
      and r1: "registered s1 source state sid stateid"
      and m1: "map_of (p_values s1 ! sid ! stateid)
              = map_of (p_values s0 ! sid ! stateid) ++ map_of (rev (map (\<lambda>(h, t, d). (h, STuple t d)) ws))"
      by blast
    let ?s2 = "s1\<lparr>p_isDirectLoaded := True\<rparr>"
    have e: "setCoupledValues s (map (\<lambda>(h, t, d). [t, d]) ws) (map fst ws) source state = (Inr (), ?s2)"
      by (simp add: setCoupledValues_def c zip_hours_values a)
    have r2: "registered ?s2 source state sid stateid" using r1 by (simp add: registered_flag)
    have "coupledValue ?s2 h' source state = (Inr (STuple t' d'), ?s2)"
      if "map_of (rev ws) h' = Some (t', d')" for h' t' d'
      using coupledValue_registered [OF r2 nd, of h' "STuple t' d'"] written_last [OF that] m1 by simp
    with e show ?thesis by auto
  qed
  show ?thesis using seq batch by blast
qed

theorem coupled_round_trip_witness:
  "store_ok init \<and> \<not> str_isdigit (PStr ''closed'')
   \<and> (\<exists>s1. setCoupledValue_seq init [(0, Some 1, Some 2), (1, Some 3, None), (0, Some 5, Some 6)]
               (PStr ''w'') (PStr ''closed'') = (Inr (), s1)
          \<and> coupledValue s1 0 (PStr ''w'') (PStr ''closed'') = (Inr (STuple (Some 5) (Some 6)), s1)
          \<and> coupledValue s1 1 (PStr ''w'') (PStr ''closed'') = (Inr (STuple (Some 3) None), s1))"
proof -
  have ok: "store_ok init" by (simp add: store_ok_def init_def)
  have nd: "\<not> str_isdigit (PStr ''closed'')" by code_simp
  let ?ws = "[(0, Some 1, Some 2), (1, Some 3, None), (0, Some 5, Some 6)] :: (int \<times> real option \<times> real option) list"
  have m0: "map_of (rev ?ws) 0 = Some (Some 5, Some 6)" by simp
  have m1: "map_of (rev ?ws) 1 = Some (Some 3, None)" by simp
  from coupled_round_trip [OF ok nd, of ?ws "PStr ''w''"] obtain s1 where
    a: "setCoupledValue_seq init ?ws (PStr ''w'') (PStr ''closed'') = (Inr (), s1)"
    and b: "\<forall>h t d. map_of (rev ?ws) h = Some (t, d)
                  \<longrightarrow> coupledValue s1 h (PStr ''w'') (PStr ''closed'') = (Inr (STuple t d), s1)"
    by blast
  from b m0 have "coupledValue s1 0 (PStr ''w'') (PStr ''closed'') = (Inr (STuple (Some 5) (Some 6)), s1)"
    by blast
  moreover from b m1 have "coupledValue s1 1 (PStr ''w'') (PStr ''closed'') = (Inr (STuple (Some 3) None), s1)"
    by blast
  ultimately show ?thesis using ok nd a by blast
qed

section \<open>The writers keep the store well formed\<close>

text \<open>
  The empty store is well formed and the writers keep it so; the hypothesis of the
  round trip holds of every store built through them.
\<close>

lemma dict_set_length_old: "k \<in> fst ` set al \<Longrightarrow> length (dict_set al k v) = length al"
proof (induction al)
  case Nil
  then show ?case by simp
next
  case (Cons e al)
  show ?case
  proof (cases "fst e = k")
    case True
    then show ?thesis by (cases e) simp
  next
    case False
    with Cons.prems have "k \<in> fst ` set al" by auto
    with Cons.IH False show ?thesis by (cases e) simp
  qed
qed

lemma store_ok_flag: "store_ok (s\<lparr>p_isDirectLoaded := b\<rparr>) = store_ok s"
  by (simp add: store_ok_def)

lemma store_ok_shape:
  assumes "store_ok s" and "p_sources s' = p_sources s"
      and "length (p_values s') = length (p_values s)"
      and "\<forall>i < length (p_values s). length (p_values s' ! i) = length (p_values s ! i)"
  shows "store_ok s'"
  using assms by (auto simp: store_ok_def list_all_iff)

lemma py_pos_bound: "py_pos xs i = Some j \<Longrightarrow> j < length xs"
  by (auto simp: py_pos_def Let_def split: if_splits)

lemma values_setitem_store_ok:
  assumes "store_ok s"
  shows "store_ok (snd (values_setitem s i j h v))"
proof (cases "py_pos (p_values s) i")
  case None
  then show ?thesis using assms by (simp add: values_setitem_def)
next
  case (Some a)
  show ?thesis
  proof (cases "py_pos (p_values s ! a) j")
    case None
    with Some show ?thesis using assms by (simp add: values_setitem_def)
  next
    case (Some b)
    with \<open>py_pos (p_values s) i = Some a\<close> py_pos_bound [OF \<open>py_pos (p_values s) i = Some a\<close>]
    show ?thesis
      by (auto simp: values_setitem_def nth_list_update intro!: store_ok_shape [OF assms])
  qed
qed

lemma values_getitem_store_ok:
  assumes "store_ok s"
  shows "store_ok (snd (values_getitem s i j h))"
proof (cases "py_pos (p_values s) i")
  case None
  then show ?thesis using assms by (simp add: values_getitem_def)
next
  case (Some a)
  show ?thesis
  proof (cases "py_pos (p_values s ! a) j")
    case None
    with Some show ?thesis using assms by (simp add: values_getitem_def)
  next
    case (Some b)
    with \<open>py_pos (p_values s) i = Some a\<close> py_pos_bound [OF \<open>py_pos (p_values s) i = Some a\<close>]
    show ?thesis
      by (auto simp: values_getitem_def nth_list_update split: prod.splits
            intro!: store_ok_shape [OF assms])
  qed
qed

lemma values_set_slot_store_ok:
  assumes "store_ok s"
  shows "store_ok (snd (values_set_slot s i j h isDirect v))"
proof -
  obtain r s1 where g: "values_getitem s i j h = (r, s1)" by (cases "values_getitem s i j h")
  with values_getitem_store_ok [OF assms, of i j h] have ok1: "store_ok s1" by simp
  show ?thesis
  proof (cases r)
    case (Inl e)
    with g ok1 show ?thesis by (simp add: values_set_slot_def)
  next
    case (Inr smp)
    show ?thesis
    proof (cases "sample_setitem smp isDirect v")
      case (Inl e)
      with g ok1 \<open>r = Inr smp\<close> show ?thesis by (simp add: values_set_slot_def)
    next
      case (Inr smp')
      with g \<open>r = Inr smp\<close> values_setitem_store_ok [OF ok1, of i j h smp'] show ?thesis
        by (simp add: values_set_slot_def)
    qed
  qed
qed

lemma coupled_assign_store_ok:
  assumes "store_ok s"
  shows "store_ok (snd (coupled_assign s i j h v))"
proof (cases "py_index v 0")
  case (Inl e)
  then show ?thesis using assms by (simp add: coupled_assign_def)
next
  case t: (Inr t)
  show ?thesis
  proof (cases "py_index v 1")
    case (Inl e)
    with t show ?thesis using assms by (simp add: coupled_assign_def)
  next
    case d: (Inr d)
    obtain r s1 where e: "values_setitem s i j h (STuple t d) = (r, s1)"
      by (cases "values_setitem s i j h (STuple t d)")
    with values_setitem_store_ok [OF assms, of i j h "STuple t d"] have "store_ok s1" by simp
    with t d e show ?thesis by (cases r) (simp_all add: coupled_assign_def)
  qed
qed

lemma add_state_store_ok:
  assumes ok: "store_ok s" and d: "map_of (p_sources s) source = Some d"
  shows "store_ok (snd (add_state s source d state))"
proof (cases "state \<in> set (src_state d)")
  case True
  then show ?thesis using ok by (simp add: add_state_def)
next
  case False
  from store_ok_entry [OF ok d] have sid: "src_id d < length (p_values s)"
    and st: "length (src_state d) \<le> length (p_values s ! src_id d)" by simp_all
  let ?d = "d\<lparr>src_state := src_state d @ [state]\<rparr>"
  let ?vals = "(p_values s)[src_id d := p_values s ! src_id d @ [[]]]"
  let ?s3 = "s\<lparr>p_sources := dict_set (p_sources s) source ?d, p_values := ?vals\<rparr>"
  from False sid have eq: "add_state s source d state = (Inr (), ?s3)"
    by (simp add: add_state_def Let_def py_pos_nat)
  from d have "source \<in> fst ` set (p_sources s)"
    by (metis map_of_eq_None_iff option.distinct(1))
  then have len: "length (dict_set (p_sources s) source ?d) = length (p_sources s)"
    by (rule dict_set_length_old)
  let ?P = "\<lambda>e. src_id (snd e) < length ?vals
              \<and> length (src_state (snd e)) \<le> length (?vals ! src_id (snd e))"
  have grow: "length (p_values s ! i) \<le> length (?vals ! i)" if "i < length (p_values s)" for i
    using that by (cases "i = src_id d") simp_all
  have old: "list_all ?P (p_sources s)"
    unfolding list_all_iff
  proof
    fix e assume "e \<in> set (p_sources s)"
    with ok have b: "src_id (snd e) < length (p_values s)"
      and l: "length (src_state (snd e)) \<le> length (p_values s ! src_id (snd e))"
      by (auto simp: store_ok_def list_all_iff)
    from l grow [OF b] have "length (src_state (snd e)) \<le> length (?vals ! src_id (snd e))"
      by (rule order_trans)
    with b show "?P e" by simp
  qed
  have new: "?P (source, ?d)" using sid st by simp
  have "list_all ?P (dict_set (p_sources s) source ?d)"
    using old new by (rule dict_set_list_all)
  then have "store_ok ?s3" using ok len by (simp add: store_ok_def)
  with eq show ?thesis by simp
qed

lemma createDataStructure_store_ok:
  assumes ok: "store_ok s"
  shows "store_ok (snd (createDataStructure s source state))"
proof -
  from add_source_ok [OF ok] obtain d where
    ok1: "store_ok (add_source s source)" and d: "map_of (p_sources (add_source s source)) source = Some d"
    by blast
  obtain r s2 where a: "add_state (add_source s source) source d state = (r, s2)"
    by (cases "add_state (add_source s source) source d state")
  with add_state_store_ok [OF ok1 d, of state] have "store_ok s2" by simp
  then show ?thesis
    by (auto simp: createDataStructure_def Let_def d a split: sum.splits option.splits)
qed

lemma store_ok_init: "store_ok init"
  by (simp add: store_ok_def init_def)

lemma setCoupledValue_store_ok:
  assumes "store_ok s"
  shows "store_ok (snd (setCoupledValue s v h source state))"
proof -
  obtain r s1 where c: "createDataStructure s source state = (r, s1)"
    by (cases "createDataStructure s source state")
  with createDataStructure_store_ok [OF assms, of source state] have ok1: "store_ok s1" by simp
  show ?thesis
  proof (cases r)
    case (Inl e)
    with c ok1 show ?thesis by (simp add: setCoupledValue_def)
  next
    case (Inr ids)
    obtain sid stateid where ids: "ids = (sid, stateid)" by (cases ids)
    obtain r2 s2 where a: "coupled_assign s1 (int sid) (int stateid) h v = (r2, s2)"
      by (cases "coupled_assign s1 (int sid) (int stateid) h v")
    with coupled_assign_store_ok [OF ok1, of "int sid" "int stateid" h v] have "store_ok s2" by simp
    with c Inr ids a show ?thesis
      by (cases r2) (simp_all add: setCoupledValue_def store_ok_flag)
  qed
qed

lemma setValue_store_ok:
  assumes "store_ok s"
  shows "store_ok (snd (setValue s v h source state isDirect))"
proof -
  obtain r s1 where c: "createDataStructure s source state = (r, s1)"
    by (cases "createDataStructure s source state")
  with createDataStructure_store_ok [OF assms, of source state] have ok1: "store_ok s1" by simp
  show ?thesis
  proof (cases r)
    case (Inl e)
    with c ok1 show ?thesis by (simp add: setValue_def)
  next
    case (Inr ids)
    obtain sid stateid where ids: "ids = (sid, stateid)" by (cases ids)
    let ?s2 = "if isDirect then s1\<lparr>p_isDirectLoaded := True\<rparr> else s1"
    have ok2: "store_ok ?s2" using ok1 by (simp add: store_ok_flag)
    from values_set_slot_store_ok [OF ok2] c Inr ids show ?thesis
      by (simp add: setValue_def Let_def)
  qed
qed

lemma setValues_loop_store_ok:
  "store_ok s \<Longrightarrow> store_ok (snd (setValues_loop s i j isDirect hvs))"
proof (induction hvs arbitrary: s)
  case Nil
  then show ?case by simp
next
  case (Cons hv hvs)
  obtain h v where hv: "hv = (h, v)" by (cases hv)
  obtain r s1 where a: "values_set_slot s i j h isDirect v = (r, s1)"
    by (cases "values_set_slot s i j h isDirect v")
  with values_set_slot_store_ok [OF Cons.prems, of i j h isDirect v] have ok1: "store_ok s1"
    by simp
  show ?case
  proof (cases r)
    case (Inl e)
    with hv a ok1 show ?thesis by simp
  next
    case (Inr u)
    with hv a Cons.IH [OF ok1] show ?thesis by simp
  qed
qed

lemma setValues_store_ok:
  assumes "store_ok s"
  shows "store_ok (snd (setValues s vs hs source state isDirect))"
proof (cases "length vs \<noteq> length hs")
  case True
  then show ?thesis using assms by (simp add: setValues_def)
next
  case False
  obtain r s1 where c: "createDataStructure s source state = (r, s1)"
    by (cases "createDataStructure s source state")
  with createDataStructure_store_ok [OF assms, of source state] have ok1: "store_ok s1" by simp
  show ?thesis
  proof (cases r)
    case (Inl e)
    with False c ok1 show ?thesis by (simp add: setValues_def)
  next
    case (Inr ids)
    obtain sid stateid where ids: "ids = (sid, stateid)" by (cases ids)
    let ?s2 = "if isDirect then s1\<lparr>p_isDirectLoaded := True\<rparr> else s1"
    have ok2: "store_ok ?s2" using ok1 by (simp add: store_ok_flag)
    from setValues_loop_store_ok [OF ok2] False c Inr ids show ?thesis
      by (simp add: setValues_def Let_def)
  qed
qed

lemma setCoupledValues_loop_store_ok:
  "store_ok s \<Longrightarrow> store_ok (snd (setCoupledValues_loop s i j hvs))"
proof (induction hvs arbitrary: s)
  case Nil
  then show ?case by simp
next
  case (Cons hv hvs)
  obtain h v where hv: "hv = (h, v)" by (cases hv)
  obtain r s1 where a: "coupled_assign s i j h v = (r, s1)"
    by (cases "coupled_assign s i j h v")
  with coupled_assign_store_ok [OF Cons.prems, of i j h v] have ok1: "store_ok s1"
    by simp
  show ?case
  proof (cases r)
    case (Inl e)
    with hv a ok1 show ?thesis by simp
  next
    case (Inr u)
    with hv a Cons.IH [OF ok1] show ?thesis by simp
  qed
qed

lemma setCoupledValues_store_ok:
  assumes "store_ok s"
  shows "store_ok (snd (setCoupledValues s vs hs source state))"
proof (cases "length vs \<noteq> length hs")
  case True
  then show ?thesis using assms by (simp add: setCoupledValues_def)
next
  case False
  obtain r s1 where c: "createDataStructure s source state = (r, s1)"
    by (cases "createDataStructure s source state")
  with createDataStructure_store_ok [OF assms, of source state] have ok1: "store_ok s1" by simp
  show ?thesis
  proof (cases r)
    case (Inl e)
    with False c ok1 show ?thesis by (simp add: setCoupledValues_def)
  next
    case (Inr ids)
    obtain sid stateid where ids: "ids = (sid, stateid)" by (cases ids)
    obtain r2 s2 where l: "setCoupledValues_loop s1 (int sid) (int stateid) (zip hs vs) = (r2, s2)"
      by (cases "setCoupledValues_loop s1 (int sid) (int stateid) (zip hs vs)")
    with setCoupledValues_loop_store_ok [OF ok1, of "int sid" "int stateid" "zip hs vs"]
    have "store_ok s2" by simp
    with False c Inr ids l show ?thesis
      by (cases r2) (simp_all add: setCoupledValues_def store_ok_flag)
  qed
qed

text \<open>The readers, which may add an hour to a series, keep it well formed too.\<close>

lemma read_sample_store_ok:
  assumes "store_ok s"
  shows "store_ok (snd (read_sample s hoy source state))"
proof (cases "sourceId s source")
  case (Inl e)
  then show ?thesis using assms by (simp add: read_sample_def)
next
  case sid: (Inr sid)
  show ?thesis
  proof (cases "blindStateId s source state")
    case (Inl e)
    with sid show ?thesis using assms by (simp add: read_sample_def)
  next
    case (Inr stateid)
    obtain r s1 where g: "values_getitem s (int sid) stateid hoy = (r, s1)"
      by (cases "values_getitem s (int sid) stateid hoy")
    with values_getitem_store_ok [OF assms, of "int sid" stateid hoy] have "store_ok s1" by simp
    with sid Inr g show ?thesis by (cases r) (simp_all add: read_sample_def)
  qed
qed

end
